theory Spec2Isabelle
  imports Main "HOL-Library.AList"
begin

section \<open>Python values used by the story book\<close>

text \<open>
  The program is the single module \<^verbatim>\<open>ai_storybook.py\<close>. Its strings are modelled as
  HOL strings holding ASCII text: \<^verbatim>\<open>str.strip\<close>, \<^verbatim>\<open>str.split\<close>, \<^verbatim>\<open>str.lower\<close> and
  \<^verbatim>\<open>str.upper\<close> act on the ASCII white space and the ASCII letters, and every other
  character is left as it is. Python dictionaries keep insertion order, so a dictionary
  is an association list: a lookup reads the first entry of a key, an assignment
  replaces the entry of a key where it stands or appends a new one.
\<close>

datatype exn = KeyError string | IndexError | StopIteration | EOFError | SystemExit int

datatype 'a outcome = Raised exn | Returned 'a

type_synonym ('k, 'v) dict = "('k \<times> 'v) list"

definition keys :: "('k, 'v) dict \<Rightarrow> 'k list" where
  "keys d = map fst d"

definition dict_get :: "('k, 'v) dict \<Rightarrow> 'k \<Rightarrow> 'v \<Rightarrow> 'v" where
  "dict_get d k dflt = (case map_of d k of None \<Rightarrow> dflt | Some v \<Rightarrow> v)"

definition dict_set :: "('k, 'v) dict \<Rightarrow> 'k \<Rightarrow> 'v \<Rightarrow> ('k, 'v) dict" where
  "dict_set d k v = AList.update k v d"

definition is_space :: "char \<Rightarrow> bool" where
  "is_space c = (c \<in> set [CHR 0x09, CHR ''\<newline>'', CHR 0x0B, CHR 0x0C, CHR 0x0D,
                           CHR 0x1C, CHR 0x1D, CHR 0x1E, CHR 0x1F, CHR '' ''])"

definition lower_char :: "char \<Rightarrow> char" where
  "lower_char c =
     (case map_of (zip ''ABCDEFGHIJKLMNOPQRSTUVWXYZ'' ''abcdefghijklmnopqrstuvwxyz'') c of
        None \<Rightarrow> c | Some d \<Rightarrow> d)"

definition upper_char :: "char \<Rightarrow> char" where
  "upper_char c =
     (case map_of (zip ''abcdefghijklmnopqrstuvwxyz'' ''ABCDEFGHIJKLMNOPQRSTUVWXYZ'') c of
        None \<Rightarrow> c | Some d \<Rightarrow> d)"

definition lower :: "string \<Rightarrow> string" where
  "lower s = map lower_char s"

definition upper :: "string \<Rightarrow> string" where
  "upper s = map upper_char s"

definition capitalize :: "string \<Rightarrow> string" where
  "capitalize s = (case s of [] \<Rightarrow> [] | c # cs \<Rightarrow> upper_char c # lower cs)"

definition strip :: "string \<Rightarrow> string" where
  "strip s = rev (dropWhile is_space (rev (dropWhile is_space s)))"

definition startswith :: "string \<Rightarrow> string \<Rightarrow> bool" where
  "startswith s p = (take (length p) s = p)"

text \<open>\<^verbatim>\<open>s.split()\<close>: the maximal runs of characters that are not white space.\<close>

fun split_from :: "string \<Rightarrow> string \<Rightarrow> string list" where
  "split_from cur [] = (if cur = [] then [] else [cur])"
| "split_from cur (c # cs) =
     (if is_space c then (if cur = [] then split_from [] cs else cur # split_from [] cs)
      else split_from (cur @ [c]) cs)"

definition split :: "string \<Rightarrow> string list" where
  "split s = split_from [] s"

fun join :: "string \<Rightarrow> string list \<Rightarrow> string" where
  "join sep [] = []"
| "join sep [x] = x"
| "join sep (x # y # ys) = x @ sep @ join sep (y # ys)"

section \<open>StoryNode and StoryState\<close>

record story_node =
  node_id :: string
  node_text :: string
  choices :: "(string, string \<times> string) dict"
  is_ending :: bool
  tags :: "string list"

record story_state =
  genre :: string
  tone :: string
  protagonist :: string
  companion :: string
  world_seed :: int
  inventory :: "string list"
  flags :: "(string, int) dict"

section \<open>The random source\<close>

text \<open>
  \<^verbatim>\<open>random.Random(seed)\<close> is a deterministic generator. Its algorithm is not part of the
  program: the model takes it as the parameter \<open>random_source\<close>, which gives the n-th
  raw draw of the generator made from a seed. The generator's state is its seed and the
  number of draws made. \<^verbatim>\<open>choice\<close> raises IndexError on an empty sequence and otherwise
  makes one draw. The parameter \<open>hash_str\<close> is Python's \<^verbatim>\<open>hash\<close> on strings.
\<close>

record env =
  hash_str :: "string \<Rightarrow> int"
  random_source :: "int \<Rightarrow> nat \<Rightarrow> nat"

record rng =
  rng_seed :: int
  rng_pos :: nat

definition Random :: "int \<Rightarrow> rng" where
  "Random s = \<lparr>rng_seed = s, rng_pos = 0\<rparr>"

definition choice :: "env \<Rightarrow> rng \<Rightarrow> 'a list \<Rightarrow> 'a outcome \<times> rng" where
  "choice ev r xs =
     (if xs = [] then (Raised IndexError, r)
      else (Returned (xs ! (random_source ev (rng_seed r) (rng_pos r) mod length xs)),
            r\<lparr>rng_pos := rng_pos r + 1\<rparr>))"

section \<open>StoryGenerator\<close>

text \<open>
  The generator object holds the same StoryState object as the engine and its own random
  generator, so the functions below take the state and the generator's random state, and
  return the latter updated.
\<close>

definition motifs :: "(string, string list) dict" where
  "motifs =
     [(''fantasy'',
        [''ancient forests hum with latent magic'',
         ''ruins dream beneath ivy and star-shards'',
         ''dragons are rumors woven into lullabies'']),
      (''sci-fi'',
        [''neon skylines flicker over rusted megastructures'',
         ''fractured moons glow above orbital shipyards'',
         ''synthetic dawns reboot forgotten cities'']),
      (''mystery'',
        [''fog erases footprints faster than they form'',
         ''clocks tick out-of-sync with the heart'',
         ''every window watches with a different story''])]"

definition closest_key :: "string \<Rightarrow> (string, 'v) dict \<Rightarrow> exn + string" where
  "closest_key key mapping =
     (let k = lower (strip key) in
      if k \<in> set (keys mapping) then Inr k
      else case find (\<lambda>candidate. startswith candidate (take 3 k)) (keys mapping) of
             Some candidate \<Rightarrow> Inr candidate
           | None \<Rightarrow> (case keys mapping of [] \<Rightarrow> Inl StopIteration | c # _ \<Rightarrow> Inr c))"

definition world_description :: "env \<Rightarrow> story_state \<Rightarrow> rng \<Rightarrow> string outcome \<times> rng" where
  "world_description ev st r =
     (case closest_key (genre st) motifs of
        Inl e \<Rightarrow> (Raised e, r)
      | Inr key \<Rightarrow>
          (case map_of motifs key of
             None \<Rightarrow> (Raised (KeyError key), r)
           | Some ms \<Rightarrow>
               (case choice ev r ms of
                  (Raised e, r') \<Rightarrow> (Raised e, r')
                | (Returned m, r') \<Rightarrow> (Returned (capitalize m @ ''.''), r'))))"

definition inciting_incident :: "env \<Rightarrow> rng \<Rightarrow> string outcome \<times> rng" where
  "inciting_incident ev r =
     choice ev r
       [''A comet carves a silent arc and leaves a whispering tail.'',
        ''A letter arrives signed by a future version of you.'',
        ''The river flows backward for exactly one minute.'',
        ''A bell rings where there is no bell.'']"

definition mysterious_clue :: "env \<Rightarrow> rng \<Rightarrow> string outcome \<times> rng" where
  "mysterious_clue ev r =
     choice ev r
       [''a rune repeating the shape of your heartbeat'',
        ''ash arranged like a compass pointing underground'',
        ''a soft tone audible only when eyes are closed'',
        ''footprints that avoid every puddle'']"

definition ally_name :: "env \<Rightarrow> rng \<Rightarrow> string outcome \<times> rng" where
  "ally_name ev r =
     (case choice ev r [''Iria'', ''Thorne'', ''Vel'', ''Mara'', ''Kade'', ''Nyx'', ''Quen''] of
        (Raised e, r1) \<Rightarrow> (Raised e, r1)
      | (Returned first_name, r1) \<Rightarrow>
          (case choice ev r1 [''Ashfall'', ''Kestrel'', ''Voss'', ''Hallow'', ''Strand'', ''Noct''] of
             (Raised e, r2) \<Rightarrow> (Raised e, r2)
           | (Returned last_name, r2) \<Rightarrow> (Returned (first_name @ '' '' @ last_name), r2)))"

definition terrain :: "env \<Rightarrow> rng \<Rightarrow> string outcome \<times> rng" where
  "terrain ev r =
     choice ev r
       [''wind-scoured valley'',
        ''tangle of luminous reeds'',
        ''labyrinth of basalt spires'',
        ''glimmering salt flats'']"

definition antagonistic_force :: "env \<Rightarrow> rng \<Rightarrow> string outcome \<times> rng" where
  "antagonistic_force ev r =
     choice ev r
       [''the Archivist who edits memories'',
        ''the Clock that refuses to strike midnight'',
        ''the Leviathan beneath the city'',
        ''the Choir of Masks that speaks as one'']"

definition ending_fragment :: "string \<Rightarrow> string" where
  "ending_fragment style =
     (if style = ''hopeful'' then
        ''Kindness accumulates like dawn. Promises once broken are rewoven, and the '' @
        ''road ahead gleams with possibility.''
      else if style = ''tragic'' then
        ''A necessary loss settles like snow. What is saved endures because of what '' @
        ''was given up.''
      else
        ''Nothing was as it seemed: the question mattered more than the answer, and '' @
        ''the answer changes when observed.'')"

definition nl :: string where
  "nl = [CHR ''\<newline>'']"

definition opening_choices :: "(string, string \<times> string) dict" where
  "opening_choices =
     [(''A'', (''Investigate the omen'', ''omen'')),
      (''B'', (''Seek an ally in the nearest settlement'', ''ally'')),
      (''C'', (''Ignore it and press onward'', ''onward''))]"

definition generate_opening :: "env \<Rightarrow> story_state \<Rightarrow> rng \<Rightarrow> story_node outcome \<times> rng" where
  "generate_opening ev st r =
     (case world_description ev st r of
        (Raised e, r1) \<Rightarrow> (Raised e, r1)
      | (Returned world, r1) \<Rightarrow>
          (case inciting_incident ev r1 of
             (Raised e, r2) \<Rightarrow> (Raised e, r2)
           | (Returned hook, r2) \<Rightarrow>
               (Returned
                  \<lparr>node_id = ''opening'',
                   node_text =
                     ''In a '' @ tone st @ '' '' @ genre st @ '' world, '' @ protagonist st @
                     '' travels with '' @ companion st @ ''. '' @ world @ '' '' @ hook @
                     nl @ nl @ ''What will you do?'',
                   choices = opening_choices, is_ending = False, tags = []\<rparr>, r2)))"

definition omen_choices :: "(string, string \<times> string) dict" where
  "omen_choices =
     [(''A'', (''Study the runes closely'', ''study_runes'')),
      (''B'', (''Mark the site and retreat for now'', ''retreat'')),
      (''C'', (''Touch the brightest rune'', ''touch_rune''))]"

definition generate_omen :: "env \<Rightarrow> story_state \<Rightarrow> rng \<Rightarrow> story_node outcome \<times> rng" where
  "generate_omen ev st r =
     (case mysterious_clue ev r of
        (Raised e, r1) \<Rightarrow> (Raised e, r1)
      | (Returned clue, r1) \<Rightarrow>
          (Returned
             \<lparr>node_id = ''omen'',
              node_text =
                ''The air shivers as runes flicker across the path. '' @ companion st @
                '' whispers about old tales. You notice '' @ clue @ ''.'' @ nl @ nl @
                ''Will you:'',
              choices = omen_choices, is_ending = False, tags = []\<rparr>, r1))"

definition study_runes_choices :: "(string, string \<times> string) dict" where
  "study_runes_choices =
     [(''A'', (''Follow the glowing path'', ''hidden_path'')),
      (''B'', (''Copy the runes for later study'', ''onward'')),
      (''C'', (''Erase one and see what happens'', ''climax''))]"

text \<open>The dash of the source text is written as its three UTF-8 bytes.\<close>

definition generate_study_runes :: "story_state \<Rightarrow> story_node" where
  "generate_study_runes st =
     \<lparr>node_id = ''study_runes'',
      node_text =
        ''As '' @ protagonist st @ '' studies the runes, '' @ companion st @ '' gasps '' @
        [CHR 0xE2, CHR 0x80, CHR 0x94] @ '' '' @
        ''the symbols start rearranging themselves into a path only visible under moonlight. '' @
        ''The markings pulse gently, revealing a hidden direction.'' @ nl @ nl @
        ''What will you do next?'',
      choices = study_runes_choices, is_ending = False, tags = []\<rparr>"

definition ally_choices :: "(string, string \<times> string) dict" where
  "ally_choices =
     [(''A'', (''Barter a keepsake for their map'', ''get_map'')),
      (''B'', (''Earn trust by helping with a local problem'', ''help_local'')),
      (''C'', (''Refuse and chart your own route'', ''onward''))]"

definition generate_ally :: "env \<Rightarrow> story_state \<Rightarrow> rng \<Rightarrow> story_node outcome \<times> rng" where
  "generate_ally ev st r =
     (case ally_name ev r of
        (Raised e, r1) \<Rightarrow> (Raised e, r1)
      | (Returned name, r1) \<Rightarrow>
          (Returned
             \<lparr>node_id = ''ally'',
              node_text =
                ''At the settlement, a wary figure named '' @ name @
                '' offers guidance for a price. '' @
                ''They speak of a hidden way only the persistent may find.'' @ nl @ nl @
                ''Choose:'',
              choices = ally_choices, is_ending = False, tags = []\<rparr>, r1))"

definition onward_choices :: "(string, string \<times> string) dict" where
  "onward_choices =
     [(''A'', (''Search the area for a fitting object'', ''search_area'')),
      (''B'', (''Force your way through the arch'', ''force_arch'')),
      (''C'', (''Set camp and wait for signs'', ''make_camp''))]"

definition generate_onward :: "env \<Rightarrow> story_state \<Rightarrow> rng \<Rightarrow> story_node outcome \<times> rng" where
  "generate_onward ev st r =
     (case terrain ev r of
        (Raised e, r1) \<Rightarrow> (Raised e, r1)
      | (Returned t, r1) \<Rightarrow>
          (Returned
             \<lparr>node_id = ''onward'',
              node_text =
                ''You press onward into '' @ t @ ''. The path splits before a stone arch. '' @
                ''Beneath the moss, faint grooves suggest something is missing.'' @ nl @ nl @
                ''Do you:'',
              choices = onward_choices, is_ending = False, tags = []\<rparr>, r1))"

definition hidden_path_choices :: "(string, string \<times> string) dict" where
  "hidden_path_choices =
     [(''A'', (''Enter the hidden passage'', ''hidden_depths'')),
      (''B'', (''Mark it and return later'', ''return_later'')),
      (''C'', (''Call out into the dark'', ''call_dark''))]"

definition generate_hidden_path :: "story_node" where
  "generate_hidden_path =
     \<lparr>node_id = ''hidden_path'',
      node_text =
        ''You feel a shift in the world: a narrow passage reveals itself where shadows '' @
        ''overlap. Few ever notice this place. A hush falls as if the story itself is '' @
        ''holding its breath.'' @ nl @ nl @ ''Proceed?'',
      choices = hidden_path_choices, is_ending = False, tags = [''hidden'']\<rparr>"

definition climax_choices :: "(string, string \<times> string) dict" where
  "climax_choices =
     [(''A'', (''Appeal with empathy'', ''ending_hopeful'')),
      (''B'', (''Outwit with a bold gambit'', ''ending_twist'')),
      (''C'', (''Defy at any cost'', ''ending_tragic''))]"

definition generate_climax :: "env \<Rightarrow> story_state \<Rightarrow> rng \<Rightarrow> story_node outcome \<times> rng" where
  "generate_climax ev st r =
     (case antagonistic_force ev r of
        (Raised e, r1) \<Rightarrow> (Raised e, r1)
      | (Returned force, r1) \<Rightarrow>
          (Returned
             \<lparr>node_id = ''climax'',
              node_text =
                ''At last, you confront '' @ force @ ''. Threads of fate tighten around '' @
                protagonist st @ ''.'' @ nl @
                ''The outcome turns on a single choice.'' @ nl @ nl @ ''Choose your stand:'',
              choices = climax_choices, is_ending = False, tags = []\<rparr>, r1))"

definition generate_ending :: "story_state \<Rightarrow> string \<Rightarrow> story_node" where
  "generate_ending st style =
     \<lparr>node_id = ''ending_'' @ style,
      node_text =
        ''After all trials, '' @ protagonist st @ '' and '' @ companion st @
        '' face the consequences. '' @ ending_fragment style @ nl @ nl @
        ''This chapter closes in a '' @ style @ '' way.'',
      choices = [], is_ending = True, tags = [''ending'', style]\<rparr>"

section \<open>StoryEngine\<close>

text \<open>
  The engine object: its StoryState (shared with the generator), the generator's random
  state, the node mapping and the current node id. A method that mutates the object
  returns the object after the call together with what the call returned or raised;
  after a raise the object is as the raise left it.
\<close>

record story_engine =
  state :: story_state
  gen :: rng
  nodes :: "(string, story_node) dict"
  current_id :: string

definition SECRET_INPUT :: string where
  "SECRET_INPUT = ''whisper''"

definition build_nodes ::
  "env \<Rightarrow> story_state \<Rightarrow> rng \<Rightarrow> (string, story_node) dict outcome \<times> rng" where
  "build_nodes ev st r =
     (case generate_opening ev st r of
        (Raised e, r1) \<Rightarrow> (Raised e, r1)
      | (Returned n_opening, r1) \<Rightarrow>
     (case generate_omen ev st r1 of
        (Raised e, r2) \<Rightarrow> (Raised e, r2)
      | (Returned n_omen, r2) \<Rightarrow>
     (case generate_ally ev st r2 of
        (Raised e, r3) \<Rightarrow> (Raised e, r3)
      | (Returned n_ally, r3) \<Rightarrow>
     (case generate_onward ev st r3 of
        (Raised e, r4) \<Rightarrow> (Raised e, r4)
      | (Returned n_onward, r4) \<Rightarrow>
     (case generate_climax ev st r4 of
        (Raised e, r5) \<Rightarrow> (Raised e, r5)
      | (Returned n_climax, r5) \<Rightarrow>
          (Returned
             [(''opening'', n_opening),
              (''omen'', n_omen),
              (''study_runes'', generate_study_runes st),
              (''ally'', n_ally),
              (''onward'', n_onward),
              (''hidden_path'', generate_hidden_path),
              (''climax'', n_climax),
              (''ending_hopeful'', generate_ending st ''hopeful''),
              (''ending_tragic'', generate_ending st ''tragic''),
              (''ending_twist'', generate_ending st ''twist'')], r5))))))"

text \<open>The constructor: it raises what \<open>build_nodes\<close> raises, and then there is no engine.\<close>

definition StoryEngine :: "env \<Rightarrow> story_state \<Rightarrow> exn + story_engine" where
  "StoryEngine ev st =
     (case build_nodes ev st (Random (world_seed st)) of
        (Raised e, r) \<Rightarrow> Inl e
      | (Returned ns, r) \<Rightarrow>
          Inr \<lparr>state = st, gen = r, nodes = ns, current_id = ''opening''\<rparr>)"

definition restart_with :: "env \<Rightarrow> story_engine \<Rightarrow> story_state \<Rightarrow> unit outcome \<times> story_engine" where
  "restart_with ev e new_state =
     (let e1 = e\<lparr>state := new_state, gen := Random (world_seed new_state)\<rparr> in
      case build_nodes ev new_state (gen e1) of
        (Raised ex, r) \<Rightarrow> (Raised ex, e1\<lparr>gen := r\<rparr>)
      | (Returned ns, r) \<Rightarrow>
          (Returned (), e1\<lparr>gen := r, nodes := ns, current_id := ''opening''\<rparr>))"

text \<open>\<^verbatim>\<open>self.nodes[self.current_id]\<close>, which raises KeyError on a missing key.\<close>

definition get_current_node :: "story_engine \<Rightarrow> exn + story_node" where
  "get_current_node e =
     (case map_of (nodes e) (current_id e) of
        None \<Rightarrow> Inl (KeyError (current_id e))
      | Some n \<Rightarrow> Inr n)"

definition set_flag :: "story_engine \<Rightarrow> string \<Rightarrow> int \<Rightarrow> story_engine" where
  "set_flag e k v = e\<lparr>state := (state e)\<lparr>flags := dict_set (flags (state e)) k v\<rparr>\<rparr>"

text \<open>
  In \<open>maybe_funnel_to_climax\<close> the last condition is
  \<^verbatim>\<open>any(k for k in self.state.flags.keys() if k not in ("steps",))\<close>: the generator yields
  the keys themselves, and \<^verbatim>\<open>any\<close> tests their truth value, which for a string is
  that it is not empty.
\<close>

definition maybe_funnel_to_climax :: "story_engine \<Rightarrow> story_node outcome \<times> story_engine" where
  "maybe_funnel_to_climax e =
     (let e1 = set_flag e ''steps'' (dict_get (flags (state e)) ''steps'' 0 + 1) in
      case map_of (nodes e1) (current_id e1) of
        None \<Rightarrow>
          (let e2 = e1\<lparr>current_id := ''climax''\<rparr> in
           case map_of (nodes e2) ''climax'' of
             None \<Rightarrow> (Raised (KeyError ''climax''), e2)
           | Some c \<Rightarrow> (Returned c, e2))
      | Some node \<Rightarrow>
          if \<not> is_ending node
             \<and> ''hidden'' \<notin> set (tags node)
             \<and> dict_get (flags (state e1)) ''steps'' 0 \<ge> 4
             \<and> list_ex (\<lambda>k. k \<noteq> [])
                  (filter (\<lambda>k. k \<notin> set [''steps'']) (keys (flags (state e1))))
          then
            (let e2 = e1\<lparr>current_id := ''climax''\<rparr> in
             case map_of (nodes e2) ''climax'' of
               None \<Rightarrow> (Raised (KeyError ''climax''), e2)
             | Some c \<Rightarrow> (Returned c, e2))
          else (Returned node, e1))"

definition apply_side_effects :: "string \<Rightarrow> string \<Rightarrow> story_state \<Rightarrow> story_state" where
  "apply_side_effects nid ch st =
     (let st1 = (if nid = ''ally'' \<and> ch = ''A''
                 then st\<lparr>inventory := inventory st @ [''cryptic map''],
                         flags := dict_set (flags st) ''map'' 1\<rparr>
                 else st);
          st2 = (if nid = ''onward'' \<and> ch = ''A''
                 then st1\<lparr>inventory := inventory st1 @ [''stone key''],
                          flags := dict_set (flags st1) ''key'' 1\<rparr>
                 else st1);
          st3 = (if nid = ''omen'' \<and> ch = ''C''
                 then st2\<lparr>flags := dict_set (flags st2) ''reckless'' 1\<rparr>
                 else st2)
      in if nid = ''onward'' \<and> ch = ''B''
         then st3\<lparr>flags := dict_set (flags st3) ''wounded'' 1\<rparr>
         else st3)"

definition rewrite_ending :: "story_engine \<Rightarrow> string \<Rightarrow> story_engine" where
  "rewrite_ending e style =
     (let style_key0 = lower (strip style);
          style_key = (if style_key0 \<notin> set [''hopeful'', ''tragic'', ''twist'']
                       then ''twist'' else style_key0)
      in e\<lparr>nodes := dict_set (nodes e) (''ending_'' @ style_key)
                       (generate_ending (state e) style_key),
           current_id := ''ending_'' @ style_key\<rparr>)"

text \<open>
  \<open>prompt_for_seeds\<close> reads four lines from the terminal. The lines the terminal gives
  during a call are the parameter \<open>lines\<close>; reading past their end is EOFError. What the
  program prints is not part of the engine and is left out.
\<close>

definition or_default :: "string \<Rightarrow> string \<Rightarrow> string" where
  "or_default s d = (if s = [] then d else s)"

definition prompt_for_seeds :: "env \<Rightarrow> string list \<Rightarrow> exn + story_state" where
  "prompt_for_seeds ev lines =
     (case lines of
        l1 # l2 # l3 # l4 # _ \<Rightarrow>
          (let g = or_default (strip l1) ''fantasy'';
               t = or_default (strip l2) ''whimsical'';
               p = or_default (strip l3) ''Ari'';
               c = or_default (strip l4) ''Rook'';
               seed_str = g @ ''|'' @ t @ ''|'' @ p @ ''|'' @ c
           in Inr \<lparr>genre = g, tone = t, protagonist = p, companion = c,
                   world_seed = \<bar>hash_str ev seed_str\<bar> mod (2 ^ 31 - 1),
                   inventory = [], flags = []\<rparr>)
      | _ \<Rightarrow> Inl EOFError)"

definition handle_command ::
  "env \<Rightarrow> string list \<Rightarrow> story_engine \<Rightarrow> string \<Rightarrow> unit outcome \<times> story_engine" where
  "handle_command ev lines e cmd =
     (case split cmd of
        [] \<Rightarrow> (Returned (), e)
      | head # tail \<Rightarrow>
          if head = ''help'' then (Returned (), e)
          else if head = ''state'' then (Returned (), e)
          else if head = ''inv'' then (Returned (), e)
          else if head = ''rewrite'' then
            (let style = (case tail of [] \<Rightarrow> ''twist'' | t # _ \<Rightarrow> t)
             in (Returned (), rewrite_ending e style))
          else if head = ''restart'' then
            (case prompt_for_seeds ev lines of
               Inl ex \<Rightarrow> (Raised ex, e)
             | Inr new \<Rightarrow> restart_with ev e new)
          else if head = ''seeds'' then (Returned (), e)
          else if head = ''quit'' then (Raised (SystemExit 0), e)
          else (Returned (), e))"

text \<open>
  The last \<^verbatim>\<open>if\<close> of \<open>step\<close> and its final \<^verbatim>\<open>return None\<close>, reached with or without
  the increment of \<open>studies\<close> before it.
\<close>

definition step_choice ::
  "story_engine \<Rightarrow> story_node \<Rightarrow> string \<Rightarrow> story_node option outcome \<times> story_engine" where
  "step_choice e node ui =
     (case map_of (choices node) (upper ui) of
        Some (lbl, next_id) \<Rightarrow>
          (let e1 = e\<lparr>state := apply_side_effects (node_id node) (upper ui) (state e)\<rparr>;
               e2 = e1\<lparr>current_id := next_id\<rparr>
           in case maybe_funnel_to_climax e2 of
                (Raised ex, e3) \<Rightarrow> (Raised ex, e3)
              | (Returned n, e3) \<Rightarrow> (Returned (Some n), e3))
      | None \<Rightarrow> (Returned None, e))"

definition step ::
  "env \<Rightarrow> string list \<Rightarrow> story_engine \<Rightarrow> string \<Rightarrow> story_node option outcome \<times> story_engine" where
  "step ev lines e user_input =
     (let ui = strip user_input in
      case map_of (nodes e) (current_id e) of
        None \<Rightarrow> (Raised (KeyError (current_id e)), e)
      | Some node \<Rightarrow>
          if startswith ui '':'' then
            (case handle_command ev lines e (drop 1 ui) of
               (Raised ex, e1) \<Rightarrow> (Raised ex, e1)
             | (Returned u, e1) \<Rightarrow>
                 (case get_current_node e1 of
                    Inl ex \<Rightarrow> (Raised ex, e1)
                  | Inr n \<Rightarrow> (Returned (Some n), e1)))
          else if lower ui = SECRET_INPUT then
            (let e1 = set_flag e ''secret'' (dict_get (flags (state e)) ''secret'' 0 + 1);
                 e2 = e1\<lparr>current_id := ''hidden_path''\<rparr>
             in case get_current_node e2 of
                  Inl ex \<Rightarrow> (Raised ex, e2)
                | Inr n \<Rightarrow> (Returned (Some n), e2))
          else if node_id node = ''omen'' \<and> upper ui = ''A'' then
            (let e1 = set_flag e ''studies'' (dict_get (flags (state e)) ''studies'' 0 + 1) in
             case map_of (flags (state e1)) ''studies'' of
               None \<Rightarrow> (Raised (KeyError ''studies''), e1)
             | Some v \<Rightarrow>
                 if v \<ge> 2 then
                   (let e2 = e1\<lparr>current_id := ''hidden_path''\<rparr>
                    in case get_current_node e2 of
                         Inl ex \<Rightarrow> (Raised ex, e2)
                       | Inr n \<Rightarrow> (Returned (Some n), e2))
                 else step_choice e1 node ui)
          else step_choice e node ui)"

section \<open>Sessions\<close>

text \<open>
  A client constructs the engine and then calls its public methods, in any order and
  with any arguments. \<open>run\<close> gives the engine after a sequence of such calls.
\<close>

datatype call = Step string "string list" | RewriteEnding string | RestartWith story_state

definition exec_call :: "env \<Rightarrow> story_engine \<Rightarrow> call \<Rightarrow> story_engine" where
  "exec_call ev e c =
     (case c of
        Step user_input lines \<Rightarrow> snd (step ev lines e user_input)
      | RewriteEnding style \<Rightarrow> rewrite_ending e style
      | RestartWith new_state \<Rightarrow> snd (restart_with ev e new_state))"

definition run :: "env \<Rightarrow> story_engine \<Rightarrow> call list \<Rightarrow> story_engine" where
  "run ev e cs = foldl (exec_call ev) e cs"

section \<open>The shape of the story graph\<close>

text \<open>
  Everything of a node but its text is fixed by the program: its id, its choices, whether
  it is an ending, and its tags. \<open>story_shape\<close> lists these for the ten nodes in the
  order \<open>build_nodes\<close> stores them, and \<open>engine_ok\<close> says that the engine's node
  mapping has this shape and that the current id is one of its keys.
\<close>

definition shape_of :: "story_node \<Rightarrow> string \<times> (string, string \<times> string) dict \<times> bool \<times> string list" where
  "shape_of n = (node_id n, choices n, is_ending n, tags n)"

definition shape :: "(string, story_node) dict \<Rightarrow> (string, string \<times> (string, string \<times> string) dict \<times> bool \<times> string list) dict" where
  "shape ns = map (\<lambda>(k, n). (k, shape_of n)) ns"

definition story_shape :: "(string, string \<times> (string, string \<times> string) dict \<times> bool \<times> string list) dict" where
  "story_shape =
     [(''opening'', (''opening'', opening_choices, False, [])),
      (''omen'', (''omen'', omen_choices, False, [])),
      (''study_runes'', (''study_runes'', study_runes_choices, False, [])),
      (''ally'', (''ally'', ally_choices, False, [])),
      (''onward'', (''onward'', onward_choices, False, [])),
      (''hidden_path'', (''hidden_path'', hidden_path_choices, False, [''hidden''])),
      (''climax'', (''climax'', climax_choices, False, [])),
      (''ending_hopeful'', (''ending_hopeful'', [], True, [''ending'', ''hopeful''])),
      (''ending_tragic'', (''ending_tragic'', [], True, [''ending'', ''tragic''])),
      (''ending_twist'', (''ending_twist'', [], True, [''ending'', ''twist'']))]"

definition engine_ok :: "story_engine \<Rightarrow> bool" where
  "engine_ok e = (shape (nodes e) = story_shape \<and> current_id e \<in> set (keys story_shape))"

text \<open>The style that \<open>rewrite_ending\<close> works with after normalising its argument.\<close>

definition style_key :: "string \<Rightarrow> string" where
  "style_key style = (if lower (strip style) \<notin> set [''hopeful'', ''tragic'', ''twist''] then ''twist'' else lower (strip style))"

text \<open>
  The first statement of \<open>maybe_funnel_to_climax\<close>: the engine with flag \<open>steps\<close>
  incremented.
\<close>

definition bump_steps :: "story_engine \<Rightarrow> story_engine" where
  "bump_steps e = set_flag e ''steps'' (dict_get (flags (state e)) ''steps'' 0 + 1)"

text \<open>
  The side-effect table of the specification, row by row: at most one row applies, and
  every other pair of node id and choice leaves the state as it is. It is compared with
  \<open>apply_side_effects\<close>, the four statements of the source.
\<close>

definition side_effect_table :: "string \<Rightarrow> string \<Rightarrow> story_state \<Rightarrow> story_state" where
  "side_effect_table nid ch st =
     (if nid = ''ally'' \<and> ch = ''A'' then
        st\<lparr>inventory := inventory st @ [''cryptic map''], flags := dict_set (flags st) ''map'' 1\<rparr>
      else if nid = ''onward'' \<and> ch = ''A'' then
        st\<lparr>inventory := inventory st @ [''stone key''], flags := dict_set (flags st) ''key'' 1\<rparr>
      else if nid = ''omen'' \<and> ch = ''C'' then
        st\<lparr>flags := dict_set (flags st) ''reckless'' 1\<rparr>
      else if nid = ''onward'' \<and> ch = ''B'' then
        st\<lparr>flags := dict_set (flags st) ''wounded'' 1\<rparr>
      else st)"

text \<open>
  The choice targets of the generated nodes. \<open>targets_present\<close> says that every
  target is a key of the node mapping; \<open>target_table\<close> lists, node by node and choice by
  choice, the target and whether it is a key; \<open>dangling_targets\<close> are the ids that the
  generated choices name and the node mapping does not store.
\<close>

definition dangling_targets :: "string list" where
  "dangling_targets =
     [''retreat'', ''touch_rune'', ''get_map'', ''help_local'', ''search_area'', ''force_arch'',
      ''make_camp'', ''hidden_depths'', ''return_later'', ''call_dark'']"

definition targets_present :: "(string, story_node) dict \<Rightarrow> bool" where
  "targets_present ns =
     list_all (\<lambda>(k, n). list_all (\<lambda>(c, lbl, tgt). tgt \<in> set (keys ns)) (choices n)) ns"

definition target_table :: "(string, story_node) dict \<Rightarrow> (string \<times> (string \<times> string \<times> bool) list) list" where
  "target_table ns =
     map (\<lambda>(k, n). (k, map (\<lambda>(c, lbl, tgt). (c, tgt, tgt \<in> set (keys ns))) (choices n))) ns"

text \<open>Example values for the parameters, used to run the definitions on concrete inputs.\<close>

definition demo_env :: env where
  "demo_env = \<lparr>hash_str = (\<lambda>s. int (length s)), random_source = (\<lambda>seed n. n)\<rparr>"

definition demo_state :: story_state where
  "demo_state =
     \<lparr>genre = ''sci-fi'', tone = ''grim'', protagonist = ''Ari'', companion = ''Rook'',
      world_seed = 7, inventory = [], flags = []\<rparr>"

section \<open>Node construction never raises\<close>

lemma choice_returns:
  "xs \<noteq> [] \<Longrightarrow> \<exists>x r'. choice ev r xs = (Returned x, r')"
  by (simp add: choice_def)

lemma closest_key_in_keys:
  assumes "mapping \<noteq> []"
  shows "\<exists>k \<in> set (keys mapping). closest_key g mapping = Inr k"
proof -
  let ?k = "lower (strip g)"
  show ?thesis
  proof (cases "?k \<in> set (keys mapping)")
    case True
    then show ?thesis by (simp add: closest_key_def)
  next
    case False
    show ?thesis
    proof (cases "find (\<lambda>c. startswith c (take 3 ?k)) (keys mapping)")
      case None
      from assms obtain c cs where "keys mapping = c # cs"
        by (cases mapping) (auto simp: keys_def)
      with None False show ?thesis by (simp add: closest_key_def)
    next
      case (Some c)
      then have "c \<in> set (keys mapping)"
        by (auto simp: find_Some_iff)
      with Some False show ?thesis by (simp add: closest_key_def)
    qed
  qed
qed

lemma motifs_lookup:
  "k \<in> set (keys motifs) \<Longrightarrow> \<exists>ms. map_of motifs k = Some ms \<and> ms \<noteq> []"
  by (auto simp: keys_def motifs_def)

lemma world_description_returns:
  "\<exists>w r'. world_description ev st r = (Returned w, r')"
proof -
  have "motifs \<noteq> []" by (simp add: motifs_def)
  from closest_key_in_keys [OF this] obtain k where
    k: "k \<in> set (keys motifs)" "closest_key (genre st) motifs = Inr k" by blast
  from motifs_lookup [OF k(1)] obtain ms where ms: "map_of motifs k = Some ms" "ms \<noteq> []" by blast
  from choice_returns [OF ms(2)] obtain m r' where "choice ev r ms = (Returned m, r')" by blast
  with k ms show ?thesis by (simp add: world_description_def)
qed

lemma generate_opening_returns:
  "\<exists>n r'. generate_opening ev st r = (Returned n, r') \<and> shape_of n = (''opening'', opening_choices, False, [])"
proof -
  obtain w r1 where w: "world_description ev st r = (Returned w, r1)"
    using world_description_returns by blast
  obtain h r2 where h: "inciting_incident ev r1 = (Returned h, r2)"
    using choice_returns [of _ ev r1] by (fastforce simp: inciting_incident_def)
  show ?thesis by (simp add: generate_opening_def w h shape_of_def)
qed

lemma generate_omen_returns:
  "\<exists>n r'. generate_omen ev st r = (Returned n, r') \<and> shape_of n = (''omen'', omen_choices, False, [])"
  by (simp add: generate_omen_def mysterious_clue_def choice_def shape_of_def)

lemma generate_ally_returns:
  "\<exists>n r'. generate_ally ev st r = (Returned n, r') \<and> shape_of n = (''ally'', ally_choices, False, [])"
  by (simp add: generate_ally_def ally_name_def choice_def shape_of_def)

lemma generate_onward_returns:
  "\<exists>n r'. generate_onward ev st r = (Returned n, r') \<and> shape_of n = (''onward'', onward_choices, False, [])"
  by (simp add: generate_onward_def terrain_def choice_def shape_of_def)

lemma generate_climax_returns:
  "\<exists>n r'. generate_climax ev st r = (Returned n, r') \<and> shape_of n = (''climax'', climax_choices, False, [])"
  by (simp add: generate_climax_def antagonistic_force_def choice_def shape_of_def)

lemma build_nodes_returns:
  "\<exists>ns r'. build_nodes ev st r = (Returned ns, r') \<and> shape ns = story_shape"
proof -
  obtain n1 r1 where 1: "generate_opening ev st r = (Returned n1, r1)"
    "shape_of n1 = (''opening'', opening_choices, False, [])"
    using generate_opening_returns by blast
  obtain n2 r2 where 2: "generate_omen ev st r1 = (Returned n2, r2)"
    "shape_of n2 = (''omen'', omen_choices, False, [])"
    using generate_omen_returns by blast
  obtain n3 r3 where 3: "generate_ally ev st r2 = (Returned n3, r3)"
    "shape_of n3 = (''ally'', ally_choices, False, [])"
    using generate_ally_returns by blast
  obtain n4 r4 where 4: "generate_onward ev st r3 = (Returned n4, r4)"
    "shape_of n4 = (''onward'', onward_choices, False, [])"
    using generate_onward_returns by blast
  obtain n5 r5 where 5: "generate_climax ev st r4 = (Returned n5, r5)"
    "shape_of n5 = (''climax'', climax_choices, False, [])"
    using generate_climax_returns by blast
  have 6: "shape_of (generate_study_runes st) = (''study_runes'', study_runes_choices, False, [])"
    "shape_of generate_hidden_path = (''hidden_path'', hidden_path_choices, False, [''hidden''])"
    "shape_of (generate_ending st ''hopeful'') = (''ending_hopeful'', [], True, [''ending'', ''hopeful''])"
    "shape_of (generate_ending st ''tragic'') = (''ending_tragic'', [], True, [''ending'', ''tragic''])"
    "shape_of (generate_ending st ''twist'') = (''ending_twist'', [], True, [''ending'', ''twist''])"
    by (simp_all add: shape_of_def generate_study_runes_def generate_hidden_path_def generate_ending_def)
  show ?thesis
    by (simp add: build_nodes_def 1 2 3 4 5 6 shape_def story_shape_def)
qed

section \<open>The engine keeps the shape of the graph\<close>

lemma keys_shape: "keys (shape ns) = keys ns"
  by (induction ns) (auto simp: keys_def shape_def)

lemma map_of_shape: "map_of (shape ns) k = map_option shape_of (map_of ns k)"
  by (induction ns) (auto simp: shape_def)

lemma shape_update: "shape (AList.update k v ns) = AList.update k (shape_of v) (shape ns)"
  by (induction ns) (auto simp: shape_def)

lemma shaped_lookup:
  assumes "shape ns = story_shape" and "map_of story_shape k = Some s"
  shows "\<exists>n. map_of ns k = Some n \<and> shape_of n = s"
  using assms map_of_shape [of ns k] by (cases "map_of ns k") auto

lemma shaped_keys: "shape ns = story_shape \<Longrightarrow> keys ns = keys story_shape"
  using keys_shape [of ns] by simp

lemma in_keys_lookup: "k \<in> set (keys d) \<Longrightarrow> \<exists>v. map_of d k = Some v"
  by (induction d) (auto simp: keys_def)

lemma lookup_in_keys: "map_of d k = Some v \<Longrightarrow> k \<in> set (keys d)"
  by (auto simp: keys_def dest: map_of_SomeD intro: rev_image_eqI)

lemma engine_ok_current:
  assumes "engine_ok e"
  shows "\<exists>n s. map_of (nodes e) (current_id e) = Some n \<and> map_of story_shape (current_id e) = Some s \<and> shape_of n = s"
proof -
  from assms have sh: "shape (nodes e) = story_shape" and c: "current_id e \<in> set (keys story_shape)"
    by (simp_all add: engine_ok_def)
  from in_keys_lookup [OF c] obtain s where s: "map_of story_shape (current_id e) = Some s" by blast
  from shaped_lookup [OF sh s] show ?thesis using s by blast
qed

lemma StoryEngine_ok: "\<exists>e. StoryEngine ev st = Inr e \<and> engine_ok e \<and> current_id e = ''opening'' \<and> state e = st"
proof -
  obtain ns r' where "build_nodes ev st (Random (world_seed st)) = (Returned ns, r')" "shape ns = story_shape"
    using build_nodes_returns by blast
  then show ?thesis
    by (simp add: StoryEngine_def engine_ok_def story_shape_def keys_def)
qed

lemma restart_with_ok:
  "\<exists>e'. restart_with ev e new = (Returned (), e') \<and> engine_ok e' \<and> current_id e' = ''opening'' \<and> state e' = new"
proof -
  obtain ns r' where "build_nodes ev new (Random (world_seed new)) = (Returned ns, r')" "shape ns = story_shape"
    using build_nodes_returns by blast
  then show ?thesis
    by (simp add: restart_with_def engine_ok_def story_shape_def keys_def)
qed

lemma style_key_cases: "style_key s = ''hopeful'' \<or> style_key s = ''tragic'' \<or> style_key s = ''twist''"
  by (auto simp: style_key_def)

lemma rewrite_ending_eq:
  "rewrite_ending e style =
     e\<lparr>nodes := dict_set (nodes e) (''ending_'' @ style_key style) (generate_ending (state e) (style_key style)),
       current_id := ''ending_'' @ style_key style\<rparr>"
  by (simp add: rewrite_ending_def style_key_def Let_def)

lemma ending_update_shape:
  "sk = ''hopeful'' \<or> sk = ''tragic'' \<or> sk = ''twist'' \<Longrightarrow>
   AList.update (''ending_'' @ sk) (shape_of (generate_ending st sk)) story_shape = story_shape"
  by (auto simp: story_shape_def shape_of_def generate_ending_def)

lemma rewrite_ending_ok:
  assumes "shape (nodes e) = story_shape"
  shows "engine_ok (rewrite_ending e style)"
proof -
  have "shape (nodes (rewrite_ending e style)) = story_shape"
    using assms ending_update_shape [of "style_key style" "state e", OF style_key_cases]
    by (simp add: rewrite_ending_eq dict_set_def shape_update)
  moreover have "current_id (rewrite_ending e style) \<in> set (keys story_shape)"
    using style_key_cases [of style]
    by (auto simp: rewrite_ending_eq story_shape_def keys_def)
  ultimately show ?thesis by (simp add: engine_ok_def)
qed

lemma set_flag_simps [simp]:
  "nodes (set_flag e k v) = nodes e"
  "current_id (set_flag e k v) = current_id e"
  "gen (set_flag e k v) = gen e"
  "flags (state (set_flag e k v)) = dict_set (flags (state e)) k v"
  "inventory (state (set_flag e k v)) = inventory (state e)"
  by (simp_all add: set_flag_def)

lemma climax_present:
  "shape ns = story_shape \<Longrightarrow> \<exists>c. map_of ns ''climax'' = Some c \<and> shape_of c = (''climax'', climax_choices, False, [])"
  by (rule shaped_lookup) (simp_all add: story_shape_def)

lemma hidden_path_present:
  "shape ns = story_shape \<Longrightarrow> \<exists>c. map_of ns ''hidden_path'' = Some c \<and> shape_of c = (''hidden_path'', hidden_path_choices, False, [''hidden''])"
  by (rule shaped_lookup) (simp_all add: story_shape_def)

lemma maybe_funnel_ok:
  assumes "shape (nodes e) = story_shape"
  shows "\<exists>n e'. maybe_funnel_to_climax e = (Returned n, e') \<and> engine_ok e' \<and> map_of (nodes e') (current_id e') = Some n"
proof -
  from climax_present [OF assms] obtain c where c: "map_of (nodes e) ''climax'' = Some c" by blast
  have ck: "''climax'' \<in> set (keys story_shape)" by (simp add: story_shape_def keys_def)
  show ?thesis
  proof (cases "map_of (nodes e) (current_id e)")
    case None
    then show ?thesis using c ck assms
      by (simp add: maybe_funnel_to_climax_def Let_def engine_ok_def)
  next
    case (Some n)
    then have "current_id e \<in> set (keys story_shape)"
      using lookup_in_keys [OF Some] shaped_keys [OF assms] by simp
    then show ?thesis using Some c ck assms
      by (simp add: maybe_funnel_to_climax_def Let_def engine_ok_def)
  qed
qed

lemma step_choice_ok:
  assumes "engine_ok e"
  shows "\<exists>r e'. step_choice e node ui = (Returned r, e') \<and> engine_ok e'"
proof (cases "map_of (choices node) (upper ui)")
  case None
  then show ?thesis using assms by (simp add: step_choice_def)
next
  case (Some p)
  obtain lbl next_id where p: "p = (lbl, next_id)" by (cases p)
  let ?e2 = "e\<lparr>state := apply_side_effects (node_id node) (upper ui) (state e), current_id := next_id\<rparr>"
  have "shape (nodes ?e2) = story_shape" using assms by (simp add: engine_ok_def)
  from maybe_funnel_ok [OF this] obtain n e' where
    "maybe_funnel_to_climax ?e2 = (Returned n, e')" "engine_ok e'" by blast
  then show ?thesis using Some p by (simp add: step_choice_def Let_def)
qed

lemma restart_branch_ok:
  assumes "engine_ok e"
  shows "engine_ok (snd (case prompt_for_seeds ev lines of
                           Inl ex \<Rightarrow> (Raised ex, e) | Inr new \<Rightarrow> restart_with ev e new))"
proof (cases "prompt_for_seeds ev lines")
  case (Inl ex)
  then show ?thesis using assms by simp
next
  case (Inr new)
  obtain e' where "restart_with ev e new = (Returned (), e')" "engine_ok e'"
    using restart_with_ok [of ev e new] by blast
  then show ?thesis using Inr by simp
qed

lemma handle_command_ok:
  assumes "engine_ok e"
  shows "engine_ok (snd (handle_command ev lines e cmd))"
proof (cases "split cmd")
  case Nil
  then show ?thesis using assms by (simp add: handle_command_def)
next
  case (Cons head tail)
  have sh: "shape (nodes e) = story_shape" using assms by (simp add: engine_ok_def)
  note rw = rewrite_ending_ok [OF sh]
  note rs = restart_branch_ok [OF assms, of ev lines]
  have ite: "\<And>c a b. engine_ok (snd a) \<Longrightarrow> engine_ok (snd b) \<Longrightarrow> engine_ok (snd (if c then a else b))"
    by simp
  show ?thesis
    unfolding handle_command_def Cons list.case Let_def
    by (intro ite rs) (simp_all only: snd_conv assms rw)
qed

lemma step_ok:
  assumes "engine_ok e"
  shows "engine_ok (snd (step ev lines e inp))"
proof -
  from engine_ok_current [OF assms] obtain node where node: "map_of (nodes e) (current_id e) = Some node" by blast
  have sh: "shape (nodes e) = story_shape" using assms by (simp add: engine_ok_def)
  from hidden_path_present [OF sh] obtain h where h: "map_of (nodes e) ''hidden_path'' = Some h" by blast
  have hk: "''hidden_path'' \<in> set (keys story_shape)" by (simp add: story_shape_def keys_def)
  let ?ui = "strip inp"
  consider (cmd) "startswith ?ui '':''"
    | (secret) "\<not> startswith ?ui '':''" "lower ?ui = SECRET_INPUT"
    | (omen) "\<not> startswith ?ui '':''" "lower ?ui \<noteq> SECRET_INPUT" "node_id node = ''omen'' \<and> upper ?ui = ''A''"
    | (generic) "\<not> startswith ?ui '':''" "lower ?ui \<noteq> SECRET_INPUT" "\<not> (node_id node = ''omen'' \<and> upper ?ui = ''A'')"
    by blast
  then show ?thesis
  proof cases
    case cmd
    obtain oc e1 where hc: "handle_command ev lines e (drop 1 ?ui) = (oc, e1)"
      by (cases "handle_command ev lines e (drop 1 ?ui)")
    have ok1: "engine_ok e1"
      using handle_command_ok [OF assms, of ev lines "drop 1 ?ui"] hc by simp
    have "snd (step ev lines e inp) = e1"
      using cmd node hc
      by (cases oc; cases "get_current_node e1") (simp_all add: step_def Let_def)
    then show ?thesis using ok1 by simp
  next
    case secret
    then show ?thesis using node h hk sh
      by (simp add: step_def Let_def get_current_node_def engine_ok_def)
  next
    case omen
    let ?e1 = "set_flag e ''studies'' (dict_get (flags (state e)) ''studies'' 0 + 1)"
    have ok1: "engine_ok ?e1" using assms by (simp add: engine_ok_def)
    from step_choice_ok [OF ok1] obtain r e' where sc: "step_choice ?e1 node ?ui = (Returned r, e')" "engine_ok e'"
      by blast
    have st: "map_of (flags (state ?e1)) ''studies'' = Some (dict_get (flags (state e)) ''studies'' 0 + 1)"
      by (simp add: dict_set_def update_conv')
    show ?thesis
    proof (cases "dict_get (flags (state e)) ''studies'' 0 + 1 \<ge> 2")
      case True
      then show ?thesis using omen node h hk sh st
        by (simp add: step_def Let_def get_current_node_def engine_ok_def)
    next
      case False
      then show ?thesis using omen node st sc
        by (simp add: step_def Let_def)
    qed
  next
    case generic
    from step_choice_ok [OF assms] obtain r e' where "step_choice e node ?ui = (Returned r, e')" "engine_ok e'"
      by blast
    then show ?thesis using generic node
      by (auto simp: step_def Let_def)
  qed
qed

lemma exec_call_ok:
  assumes "engine_ok e"
  shows "engine_ok (exec_call ev e c)"
proof (cases c)
  case (Step inp lines)
  then show ?thesis using step_ok [OF assms] by (simp add: exec_call_def)
next
  case (RewriteEnding style)
  then show ?thesis using rewrite_ending_ok [of e style] assms
    by (simp add: exec_call_def engine_ok_def)
next
  case (RestartWith new)
  obtain e' where "restart_with ev e new = (Returned (), e')" "engine_ok e'"
    using restart_with_ok [of ev e new] by blast
  then show ?thesis using RestartWith by (simp add: exec_call_def)
qed

lemma run_ok: "engine_ok e \<Longrightarrow> engine_ok (run ev e cs)"
  unfolding run_def by (induction cs arbitrary: e) (simp_all add: exec_call_ok)

lemma reachable_ok:
  "StoryEngine ev st = Inr e0 \<Longrightarrow> engine_ok (run ev e0 cs)"
  using StoryEngine_ok [of ev st] run_ok by auto




lemma secret_not_command:
  "lower ui = SECRET_INPUT \<Longrightarrow> \<not> startswith ui '':''"
  by (cases ui) (auto simp: lower_def SECRET_INPUT_def startswith_def lower_char_def)

lemma quit_parse:
  "strip '':quit'' = '':quit''" "startswith '':quit'' '':''" "split (drop 1 '':quit'') = [''quit'']"
  by (simp_all add: strip_def is_space_def startswith_def split_def)


section \<open>Evaluating the funnel and the step\<close>

lemma StoryEngine_start:
  "StoryEngine ev st = Inr e0 \<Longrightarrow> engine_ok e0 \<and> current_id e0 = ''opening'' \<and> state e0 = st"
  using StoryEngine_ok [of ev st] by auto

lemma node_at:
  assumes "engine_ok e" and "map_of story_shape (current_id e) = Some s"
  shows "\<exists>node. map_of (nodes e) (current_id e) = Some node \<and> shape_of node = s"
  using engine_ok_current [OF assms(1)] assms(2) by auto

lemma funnel_missing:
  assumes "shape (nodes e) = story_shape" and "map_of (nodes e) (current_id e) = None"
  shows "\<exists>c. map_of (nodes e) ''climax'' = Some c
           \<and> maybe_funnel_to_climax e = (Returned c, (bump_steps e)\<lparr>current_id := ''climax''\<rparr>)"
  using climax_present [OF assms(1)] assms(2)
  by (auto simp: maybe_funnel_to_climax_def Let_def bump_steps_def)

lemma funnel_fire:
  assumes "shape (nodes e) = story_shape" and "map_of (nodes e) (current_id e) = Some node"
    and "\<not> is_ending node \<and> ''hidden'' \<notin> set (tags node)
         \<and> dict_get (flags (state (bump_steps e))) ''steps'' 0 \<ge> 4
         \<and> list_ex (\<lambda>k. k \<noteq> [])
              (filter (\<lambda>k. k \<notin> set [''steps'']) (keys (flags (state (bump_steps e)))))"
  shows "\<exists>c. map_of (nodes e) ''climax'' = Some c
           \<and> maybe_funnel_to_climax e = (Returned c, (bump_steps e)\<lparr>current_id := ''climax''\<rparr>)"
  using climax_present [OF assms(1)] assms(2,3)
  by (auto simp: maybe_funnel_to_climax_def Let_def bump_steps_def)

lemma funnel_stay:
  assumes "map_of (nodes e) (current_id e) = Some node"
    and "\<not> (\<not> is_ending node \<and> ''hidden'' \<notin> set (tags node)
         \<and> dict_get (flags (state (bump_steps e))) ''steps'' 0 \<ge> 4
         \<and> list_ex (\<lambda>k. k \<noteq> [])
              (filter (\<lambda>k. k \<notin> set [''steps'']) (keys (flags (state (bump_steps e))))))"
  shows "maybe_funnel_to_climax e = (Returned node, bump_steps e)"
  using assms
  by (auto simp: maybe_funnel_to_climax_def Let_def bump_steps_def)

lemma step_generic:
  assumes "map_of (nodes e) (current_id e) = Some node"
    and "\<not> startswith (strip inp) '':''"
    and "lower (strip inp) \<noteq> SECRET_INPUT"
    and "\<not> (node_id node = ''omen'' \<and> upper (strip inp) = ''A'')"
    and "map_of (choices node) (upper (strip inp)) = Some (lbl, tgt)"
  shows "step ev lines e inp =
           (case maybe_funnel_to_climax
                   (e\<lparr>state := apply_side_effects (node_id node) (upper (strip inp)) (state e),
                      current_id := tgt\<rparr>) of
              (Raised ex, e3) \<Rightarrow> (Raised ex, e3)
            | (Returned n, e3) \<Rightarrow> (Returned (Some n), e3))"
  using assms by (auto simp: step_def step_choice_def Let_def)

lemma step_first_study:
  assumes "map_of (nodes e) (current_id e) = Some node"
    and "\<not> startswith (strip inp) '':''"
    and "lower (strip inp) \<noteq> SECRET_INPUT"
    and "node_id node = ''omen''" and "upper (strip inp) = ''A''"
    and "dict_get (flags (state e)) ''studies'' 0 + 1 < 2"
    and "map_of (choices node) ''A'' = Some (lbl, tgt)"
  shows "step ev lines e inp =
           (case maybe_funnel_to_climax
                   ((set_flag e ''studies'' (dict_get (flags (state e)) ''studies'' 0 + 1))
                      \<lparr>current_id := tgt\<rparr>) of
              (Raised ex, e3) \<Rightarrow> (Raised ex, e3)
            | (Returned n, e3) \<Rightarrow> (Returned (Some n), e3))"
proof -
  let ?e1 = "set_flag e ''studies'' (dict_get (flags (state e)) ''studies'' 0 + 1)"
  have st: "map_of (flags (state ?e1)) ''studies'' = Some (dict_get (flags (state e)) ''studies'' 0 + 1)"
    by (simp add: dict_set_def update_conv')
  have se: "apply_side_effects ''omen'' ''A'' s = s" for s
    by (simp add: apply_side_effects_def)
  have e2: "?e1\<lparr>state := state ?e1, current_id := tgt\<rparr> = ?e1\<lparr>current_id := tgt\<rparr>"
    by simp
  show ?thesis
    using assms st
    by (simp add: step_def step_choice_def Let_def se e2)
qed

lemma step_second_study:
  assumes "map_of (nodes e) (current_id e) = Some node"
    and "\<not> startswith (strip inp) '':''"
    and "lower (strip inp) \<noteq> SECRET_INPUT"
    and "node_id node = ''omen''" and "upper (strip inp) = ''A''"
    and "dict_get (flags (state e)) ''studies'' 0 + 1 \<ge> 2"
    and "map_of (nodes e) ''hidden_path'' = Some h"
  shows "step ev lines e inp =
           (Returned (Some h),
            (set_flag e ''studies'' (dict_get (flags (state e)) ''studies'' 0 + 1))
               \<lparr>current_id := ''hidden_path''\<rparr>)"
proof -
  let ?e1 = "set_flag e ''studies'' (dict_get (flags (state e)) ''studies'' 0 + 1)"
  have st: "map_of (flags (state ?e1)) ''studies'' = Some (dict_get (flags (state e)) ''studies'' 0 + 1)"
    by (simp add: dict_set_def update_conv')
  show ?thesis
    using assms st
    by (simp add: step_def Let_def get_current_node_def)
qed

lemma letter_A_parse:
  "inp = ''A'' \<or> inp = ''a'' \<Longrightarrow>
     upper (strip inp) = ''A'' \<and> \<not> startswith (strip inp) '':'' \<and> lower (strip inp) \<noteq> SECRET_INPUT"
  by (auto simp: strip_def is_space_def upper_def upper_char_def lower_def lower_char_def
      startswith_def SECRET_INPUT_def)

lemma funnel_state:
  "state (snd (maybe_funnel_to_climax e)) = state (bump_steps e)"
  by (simp add: maybe_funnel_to_climax_def Let_def bump_steps_def split: option.splits)

lemma funnel_nodes:
  "nodes (snd (maybe_funnel_to_climax e)) = nodes e"
  by (simp add: maybe_funnel_to_climax_def Let_def split: option.splits)

lemma snd_lift_outcome:
  "snd (case m of (Raised ex, e3) \<Rightarrow> (Raised ex, e3)
                | (Returned n, e3) \<Rightarrow> (Returned (Some n), e3)) = snd m"
  by (cases m) (auto split: outcome.splits)

lemma bump_steps_simps [simp]:
  "nodes (bump_steps e) = nodes e"
  "current_id (bump_steps e) = current_id e"
  "gen (bump_steps e) = gen e"
  "inventory (state (bump_steps e)) = inventory (state e)"
  "flags (state (bump_steps e)) =
     dict_set (flags (state e)) ''steps'' (dict_get (flags (state e)) ''steps'' 0 + 1)"
  by (simp_all add: bump_steps_def)

lemma no_side_effect_simps:
  "apply_side_effects ''opening'' ch s = s"
  "apply_side_effects ''omen'' ''A'' s = s"
  by (simp_all add: apply_side_effects_def)

lemma opening_choice:
  assumes "StoryEngine ev st = Inr e0"
    and "\<not> startswith (strip inp) '':''" and "lower (strip inp) \<noteq> SECRET_INPUT"
    and "map_of opening_choices (upper (strip inp)) = Some (lbl, tgt)"
    and "\<not> (dict_get (flags st) ''steps'' 0 + 1 \<ge> 4
            \<and> list_ex (\<lambda>k. k \<noteq> []) (filter (\<lambda>k. k \<notin> set [''steps''])
                 (keys (dict_set (flags st) ''steps'' (dict_get (flags st) ''steps'' 0 + 1)))))"
  shows "snd (step ev lines e0 inp) = bump_steps (e0\<lparr>current_id := tgt\<rparr>)"
proof -
  from StoryEngine_start [OF assms(1)] have ok: "engine_ok e0" and c: "current_id e0 = ''opening''"
    and s: "state e0 = st" by simp_all
  have "map_of story_shape (current_id e0) = Some (''opening'', opening_choices, False, [])"
    using c by (simp add: story_shape_def)
  from node_at [OF ok this] obtain node where
    node: "map_of (nodes e0) (current_id e0) = Some node"
    "shape_of node = (''opening'', opening_choices, False, [])" by blast
  then have nid: "node_id node = ''opening''" and ch: "choices node = opening_choices"
    by (simp_all add: shape_of_def)
  have tg: "map_of (choices node) (upper (strip inp)) = Some (lbl, tgt)"
    using ch assms(4) by simp
  have no: "\<not> (node_id node = ''omen'' \<and> upper (strip inp) = ''A'')" using nid by simp
  let ?e2 = "e0\<lparr>current_id := tgt\<rparr>"
  have e2: "e0\<lparr>state := apply_side_effects (node_id node) (upper (strip inp)) (state e0),
              current_id := tgt\<rparr> = ?e2"
    using nid by (simp add: no_side_effect_simps)
  have sh: "shape (nodes e0) = story_shape" using ok by (simp add: engine_ok_def)
  have "tgt \<in> set (keys story_shape)"
    using assms(4) by (auto simp: opening_choices_def story_shape_def keys_def split: if_splits)
  then have "tgt \<in> set (keys (nodes e0))" using shaped_keys [OF sh] by simp
  from in_keys_lookup [OF this] obtain n2 where n2: "map_of (nodes e0) tgt = Some n2" by blast
  have stay: "maybe_funnel_to_climax ?e2 = (Returned n2, bump_steps ?e2)"
    by (rule funnel_stay [where node = n2])
       (use n2 assms(5) s in \<open>simp_all add: dict_get_def dict_set_def update_conv'\<close>)
  show ?thesis
    unfolding step_generic [OF node(1) assms(2,3) no tg] e2 stay by simp
qed

lemma opening_A:
  assumes "StoryEngine ev st = Inr e0" and "inp = ''A'' \<or> inp = ''a''"
    and "\<not> (dict_get (flags st) ''steps'' 0 + 1 \<ge> 4
            \<and> list_ex (\<lambda>k. k \<noteq> []) (filter (\<lambda>k. k \<notin> set [''steps''])
                 (keys (dict_set (flags st) ''steps'' (dict_get (flags st) ''steps'' 0 + 1)))))"
  shows "snd (step ev lines e0 inp) = bump_steps (e0\<lparr>current_id := ''omen''\<rparr>)"
proof -
  from StoryEngine_start [OF assms(1)] have ok: "engine_ok e0" and c: "current_id e0 = ''opening''"
    and s: "state e0 = st" by simp_all
  have "map_of story_shape (current_id e0) = Some (''opening'', opening_choices, False, [])"
    using c by (simp add: story_shape_def)
  from node_at [OF ok this] obtain node where
    node: "map_of (nodes e0) (current_id e0) = Some node"
    "shape_of node = (''opening'', opening_choices, False, [])" by blast
  then have nid: "node_id node = ''opening''" and ch: "choices node = opening_choices"
    by (simp_all add: shape_of_def)
  from letter_A_parse [OF assms(2)] have p: "upper (strip inp) = ''A''"
    "\<not> startswith (strip inp) '':''" "lower (strip inp) \<noteq> SECRET_INPUT" by simp_all
  have tg: "map_of (choices node) (upper (strip inp)) = Some (''Investigate the omen'', ''omen'')"
    using ch p(1) by (simp add: opening_choices_def)
  have no: "\<not> (node_id node = ''omen'' \<and> upper (strip inp) = ''A'')" using nid by simp
  let ?e2 = "e0\<lparr>current_id := ''omen''\<rparr>"
  have e2: "e0\<lparr>state := apply_side_effects (node_id node) (upper (strip inp)) (state e0),
              current_id := ''omen''\<rparr> = ?e2"
    using nid by (simp add: no_side_effect_simps)
  have sh: "shape (nodes e0) = story_shape" using ok by (simp add: engine_ok_def)
  have "map_of story_shape ''omen'' = Some (''omen'', omen_choices, False, [])"
    by (simp add: story_shape_def)
  from shaped_lookup [OF sh this] obtain n2 where
    n2: "map_of (nodes e0) ''omen'' = Some n2" "shape_of n2 = (''omen'', omen_choices, False, [])"
    by blast
  have stay: "maybe_funnel_to_climax ?e2 = (Returned n2, bump_steps ?e2)"
    by (rule funnel_stay [where node = n2]) (use n2 assms(3) s in \<open>simp_all add: dict_get_def dict_set_def update_conv'\<close>)
  show ?thesis
    unfolding step_generic [OF node(1) p(2,3) no tg] e2 stay by simp
qed

lemma apply_side_effects_table:
  "apply_side_effects nid ch s = side_effect_table nid ch s"
  by (auto simp: apply_side_effects_def side_effect_table_def Let_def)

lemma table_omen_A: "side_effect_table ''omen'' ''A'' s = s"
  by (simp add: side_effect_table_def)

lemma build_nodes_explicit:
  "\<exists>n1 n2 n3 n4 n5 r'.
     build_nodes ev st r =
       (Returned
          [(''opening'', n1), (''omen'', n2), (''study_runes'', generate_study_runes st),
           (''ally'', n3), (''onward'', n4), (''hidden_path'', generate_hidden_path),
           (''climax'', n5), (''ending_hopeful'', generate_ending st ''hopeful''),
           (''ending_tragic'', generate_ending st ''tragic''),
           (''ending_twist'', generate_ending st ''twist'')], r')
     \<and> shape_of n1 = (''opening'', opening_choices, False, [])
     \<and> shape_of n2 = (''omen'', omen_choices, False, [])
     \<and> shape_of n3 = (''ally'', ally_choices, False, [])
     \<and> shape_of n4 = (''onward'', onward_choices, False, [])
     \<and> shape_of n5 = (''climax'', climax_choices, False, [])"
proof -
  obtain n1 r1 where 1: "generate_opening ev st r = (Returned n1, r1)"
    "shape_of n1 = (''opening'', opening_choices, False, [])"
    using generate_opening_returns by blast
  obtain n2 r2 where 2: "generate_omen ev st r1 = (Returned n2, r2)"
    "shape_of n2 = (''omen'', omen_choices, False, [])"
    using generate_omen_returns by blast
  obtain n3 r3 where 3: "generate_ally ev st r2 = (Returned n3, r3)"
    "shape_of n3 = (''ally'', ally_choices, False, [])"
    using generate_ally_returns by blast
  obtain n4 r4 where 4: "generate_onward ev st r3 = (Returned n4, r4)"
    "shape_of n4 = (''onward'', onward_choices, False, [])"
    using generate_onward_returns by blast
  obtain n5 r5 where 5: "generate_climax ev st r4 = (Returned n5, r5)"
    "shape_of n5 = (''climax'', climax_choices, False, [])"
    using generate_climax_returns by blast
  show ?thesis
    by (simp add: build_nodes_def 1 2 3 4 5)
qed

lemma fixed_choices:
  "choices (generate_study_runes st) = study_runes_choices"
  "choices generate_hidden_path = hidden_path_choices"
  "choices (generate_ending st style) = []"
  "is_ending (generate_study_runes st) = False"
  "is_ending generate_hidden_path = False"
  "is_ending (generate_ending st style) = True"
  by (simp_all add: generate_study_runes_def generate_hidden_path_def generate_ending_def)

lemmas choice_tables = opening_choices_def omen_choices_def study_runes_choices_def
  ally_choices_def onward_choices_def hidden_path_choices_def climax_choices_def

lemma run_Nil: "run ev e [] = e"
  by (simp add: run_def)

lemma run_one_step: "run ev e [Step inp lines] = snd (step ev lines e inp)"
  by (simp add: run_def exec_call_def)

lemma demo_state_simps:
  "flags demo_state = []" "inventory demo_state = []"
  by (simp_all add: demo_state_def)

text \<open>
  What the generic choice path does to \<open>steps\<close> and to the current id, for every
  engine state and every choice outside the study of the runes at \<open>omen\<close>. The last
  condition of the funnel asks for a key that is neither \<open>steps\<close> nor the empty string.
\<close>

lemma funnel_current:
  assumes "shape (nodes e) = story_shape"
  shows "current_id (snd (maybe_funnel_to_climax e)) =
     (case map_of (nodes e) (current_id e) of
        None \<Rightarrow> ''climax''
      | Some tn \<Rightarrow>
          if \<not> is_ending tn \<and> ''hidden'' \<notin> set (tags tn)
             \<and> dict_get (flags (state (bump_steps e))) ''steps'' 0 \<ge> 4
             \<and> (\<exists>k \<in> set (keys (flags (state (bump_steps e)))). k \<noteq> ''steps'' \<and> k \<noteq> [])
          then ''climax'' else current_id e)"
proof (cases "map_of (nodes e) (current_id e)")
  case None
  from funnel_missing [OF assms None] show ?thesis using None by auto
next
  case (Some tn)
  let ?c = "\<not> is_ending tn \<and> ''hidden'' \<notin> set (tags tn)
         \<and> dict_get (flags (state (bump_steps e))) ''steps'' 0 \<ge> 4
         \<and> list_ex (\<lambda>k. k \<noteq> [])
              (filter (\<lambda>k. k \<notin> set [''steps'']) (keys (flags (state (bump_steps e)))))"
  have ex: "list_ex (\<lambda>k. k \<noteq> [])
              (filter (\<lambda>k. k \<notin> set [''steps'']) (keys (flags (state (bump_steps e)))))
        = (\<exists>k \<in> set (keys (flags (state (bump_steps e)))). k \<noteq> ''steps'' \<and> k \<noteq> [])"
    by (auto simp: list_ex_iff)
  show ?thesis
  proof (cases ?c)
    case True
    from funnel_fire [OF assms Some True] obtain c where
      "maybe_funnel_to_climax e = (Returned c, (bump_steps e)\<lparr>current_id := ''climax''\<rparr>)"
      by blast
    moreover from True ex
    have "\<not> is_ending tn \<and> ''hidden'' \<notin> set (tags tn)
         \<and> dict_get (flags (state (bump_steps e))) ''steps'' 0 \<ge> 4
         \<and> (\<exists>k \<in> set (keys (flags (state (bump_steps e)))). k \<noteq> ''steps'' \<and> k \<noteq> [])"
      by blast
    ultimately show ?thesis unfolding Some option.case by (simp only: if_True snd_conv) simp
  next
    case False
    from funnel_stay [OF Some False] have "maybe_funnel_to_climax e = (Returned tn, bump_steps e)" .
    moreover from False ex
    have "\<not> (\<not> is_ending tn \<and> ''hidden'' \<notin> set (tags tn)
         \<and> dict_get (flags (state (bump_steps e))) ''steps'' 0 \<ge> 4
         \<and> (\<exists>k \<in> set (keys (flags (state (bump_steps e)))). k \<noteq> ''steps'' \<and> k \<noteq> []))"
      by blast
    ultimately show ?thesis unfolding Some option.case by (simp only: if_False snd_conv) simp
  qed
qed

lemma table_keeps_steps:
  "dict_get (flags (side_effect_table nid ch s)) ''steps'' 0 = dict_get (flags s) ''steps'' 0"
  by (simp add: side_effect_table_def dict_get_def dict_set_def update_conv')

lemma funnel_rule:
  assumes "StoryEngine ev st = Inr e0" and "e = run ev e0 cs"
    and "get_current_node e = Inr node"
    and "\<not> startswith (strip inp) '':''" and "lower (strip inp) \<noteq> SECRET_INPUT"
    and "\<not> (node_id node = ''omen'' \<and> upper (strip inp) = ''A'')"
    and "map_of (choices node) (upper (strip inp)) = Some (lbl, tgt)"
    and "e' = snd (step ev lines e inp)"
  shows "dict_get (flags (state e')) ''steps'' 0 = dict_get (flags (state e)) ''steps'' 0 + 1"
    and "current_id e' =
     (case map_of (nodes e) tgt of
        None \<Rightarrow> ''climax''
      | Some tn \<Rightarrow>
          if \<not> is_ending tn \<and> ''hidden'' \<notin> set (tags tn)
             \<and> dict_get (flags (state e')) ''steps'' 0 \<ge> 4
             \<and> (\<exists>k \<in> set (keys (flags (state e'))). k \<noteq> ''steps'' \<and> k \<noteq> [])
          then ''climax'' else tgt)"
proof -
  have ok: "engine_ok e" unfolding assms(2) by (rule reachable_ok [OF assms(1)])
  have node: "map_of (nodes e) (current_id e) = Some node"
    using assms(3) by (simp add: get_current_node_def split: option.splits)
  let ?x = "e\<lparr>state := side_effect_table (node_id node) (upper (strip inp)) (state e),
              current_id := tgt\<rparr>"
  have sh: "shape (nodes ?x) = story_shape" using ok by (simp add: engine_ok_def)
  have e': "e' = snd (maybe_funnel_to_climax ?x)"
    unfolding assms(8) step_generic [OF node assms(4,5,6,7)] snd_lift_outcome
    by (simp add: apply_side_effects_table)
  have st: "state e' = state (bump_steps ?x)" unfolding e' by (rule funnel_state)
  show "dict_get (flags (state e')) ''steps'' 0 = dict_get (flags (state e)) ''steps'' 0 + 1"
    unfolding st
    by (simp add: table_keeps_steps) (simp add: dict_get_def dict_set_def update_conv')
  show "current_id e' =
     (case map_of (nodes e) tgt of
        None \<Rightarrow> ''climax''
      | Some tn \<Rightarrow>
          if \<not> is_ending tn \<and> ''hidden'' \<notin> set (tags tn)
             \<and> dict_get (flags (state e')) ''steps'' 0 \<ge> 4
             \<and> (\<exists>k \<in> set (keys (flags (state e'))). k \<noteq> ''steps'' \<and> k \<noteq> [])
          then ''climax'' else tgt)"
    unfolding st unfolding e' funnel_current [OF sh] by (simp cong: option.case_cong if_cong)
qed

section \<open>Claims\<close>



text \<open>
  C8. The current id is always a key of the node mapping. The constructor returns an
  engine whose current id is \<open>opening\<close>; after any sequence of calls of \<open>step\<close>,
  \<open>rewrite_ending\<close> and \<open>restart_with\<close> the current id is a key of the node mapping
  and looking up the current node does not fail; a further \<open>step\<close> or
  \<open>rewrite_ending\<close> keeps this, and a restart sets the current id to \<open>opening\<close>.
\<close>

theorem current_id_always_valid:
  "\<exists>e0. StoryEngine ev st = Inr e0 \<and> current_id e0 = ''opening''
     \<and> (\<forall>cs. current_id (run ev e0 cs) \<in> set (keys (nodes (run ev e0 cs)))
             \<and> (\<exists>n. get_current_node (run ev e0 cs) = Inr n))
     \<and> (\<forall>cs lines inp.
            current_id (snd (step ev lines (run ev e0 cs) inp))
              \<in> set (keys (nodes (snd (step ev lines (run ev e0 cs) inp)))))
     \<and> (\<forall>cs style.
            current_id (rewrite_ending (run ev e0 cs) style)
              \<in> set (keys (nodes (rewrite_ending (run ev e0 cs) style))))
     \<and> (\<forall>cs new. \<exists>e'. restart_with ev (run ev e0 cs) new = (Returned (), e')
            \<and> current_id e' = ''opening'' \<and> ''opening'' \<in> set (keys (nodes e')))"
proof -
  obtain e0 where e0: "StoryEngine ev st = Inr e0" "engine_ok e0" "current_id e0 = ''opening''"
    using StoryEngine_ok by blast
  have valid: "current_id e \<in> set (keys (nodes e))" if "engine_ok e" for e
    using that shaped_keys [of "nodes e"] by (simp add: engine_ok_def)
  have ok: "engine_ok (run ev e0 cs)" for cs
    by (rule run_ok [OF e0(2)])
  have a: "current_id (run ev e0 cs) \<in> set (keys (nodes (run ev e0 cs)))
             \<and> (\<exists>n. get_current_node (run ev e0 cs) = Inr n)" for cs
    using valid [OF ok [of cs]] engine_ok_current [OF ok [of cs]]
    by (auto simp: get_current_node_def)
  have b: "current_id (snd (step ev lines (run ev e0 cs) inp))
              \<in> set (keys (nodes (snd (step ev lines (run ev e0 cs) inp))))" for cs lines inp
    by (rule valid [OF step_ok [OF ok]])
  have c: "current_id (rewrite_ending (run ev e0 cs) style)
              \<in> set (keys (nodes (rewrite_ending (run ev e0 cs) style)))" for cs style
    using ok [of cs] by (intro valid rewrite_ending_ok) (simp add: engine_ok_def)
  have d: "\<exists>e'. restart_with ev (run ev e0 cs) new = (Returned (), e')
            \<and> current_id e' = ''opening'' \<and> ''opening'' \<in> set (keys (nodes e'))" for cs new
  proof -
    obtain e' where e': "restart_with ev (run ev e0 cs) new = (Returned (), e')"
      "engine_ok e'" "current_id e' = ''opening''"
      using restart_with_ok [of ev "run ev e0 cs" new] by blast
    from valid [OF e'(2)] e'(1,3) show ?thesis by auto
  qed
  from e0 a b c d show ?thesis by blast
qed

theorem current_id_always_valid_witness:
  "\<exists>e0. StoryEngine demo_env demo_state = Inr e0 \<and> current_id e0 = ''opening''
     \<and> (\<exists>n. get_current_node
               (run demo_env e0
                  [Step ''a'' [], Step ''B'' [], Step '':rewrite bogus'' [], Step ''whisper'' [],
                   RewriteEnding ''tragic'', Step '':restart'' [''mystery'', [], ''Zed'', []]])
             = Inr n)"
  using current_id_always_valid [of demo_env demo_state] by blast

text \<open>
  C9. For every engine state, \<open>step(":quit")\<close> raises SystemExit(0): the call neither
  returns a node nor returns None, and the engine (current id, inventory, flags, nodes) is
  the same after the raise as before the call.
\<close>

theorem quit_raises_SystemExit:
  assumes "StoryEngine ev st = Inr e0" and "e = run ev e0 cs"
  shows "step ev lines e '':quit'' = (Raised (SystemExit 0), e)
         \<and> (\<forall>r. fst (step ev lines e '':quit'') \<noteq> Returned r)"
proof -
  have ok: "engine_ok e" using assms reachable_ok by simp
  from engine_ok_current [OF ok] obtain node where
    node: "map_of (nodes e) (current_id e) = Some node" by blast
  have hc: "handle_command ev lines e ''quit'' = (Raised (SystemExit 0), e)"
    using quit_parse(3) by (simp add: handle_command_def)
  have "step ev lines e '':quit'' = (Raised (SystemExit 0), e)"
    using node hc quit_parse by (simp add: step_def)
  then show ?thesis by simp
qed

theorem quit_raises_SystemExit_witness:
  "\<exists>e0. StoryEngine demo_env demo_state = Inr e0
     \<and> step demo_env [] (run demo_env e0 [Step ''B'' [], RewriteEnding ''hopeful'']) '':quit''
         = (Raised (SystemExit 0), run demo_env e0 [Step ''B'' [], RewriteEnding ''hopeful''])"
proof -
  obtain e0 where e0: "StoryEngine demo_env demo_state = Inr e0"
    using StoryEngine_ok [of demo_env demo_state] by blast
  from quit_raises_SystemExit
         [where cs = "[Step ''B'' [], RewriteEnding ''hopeful'']" and lines = "[]", OF e0 refl] e0
  show ?thesis by blast
qed

text \<open>
  C3. For every engine state and every raw input whose trimmed form equals the secret
  keyword under \<open>lower\<close>: the trimmed input does not begin with a colon; \<open>step\<close>
  returns the node stored under \<open>hidden_path\<close>; the engine after the call differs from
  the engine before it only in flag \<open>secret\<close>, which is one more than before (counted
  from 0 when absent), and in the current id, which is \<open>hidden_path\<close>. In particular
  flag \<open>steps\<close>, every other flag, the inventory and the nodes are unchanged.
\<close>

theorem secret_keyword:
  assumes "StoryEngine ev st = Inr e0" and "e = run ev e0 cs"
    and "lower (strip inp) = SECRET_INPUT"
  shows "\<not> startswith (strip inp) '':''
     \<and> (\<exists>h. map_of (nodes e) ''hidden_path'' = Some h \<and> node_id h = ''hidden_path''
           \<and> step ev lines e inp =
               (Returned (Some h),
                e\<lparr>state := (state e)\<lparr>flags := dict_set (flags (state e)) ''secret''
                                                (dict_get (flags (state e)) ''secret'' 0 + 1)\<rparr>,
                  current_id := ''hidden_path''\<rparr>))
     \<and> dict_get (flags (state (snd (step ev lines e inp)))) ''secret'' 0
         = dict_get (flags (state e)) ''secret'' 0 + 1
     \<and> dict_get (flags (state (snd (step ev lines e inp)))) ''steps'' 0
         = dict_get (flags (state e)) ''steps'' 0
     \<and> (\<forall>k. k \<noteq> ''secret'' \<longrightarrow>
           map_of (flags (state (snd (step ev lines e inp)))) k = map_of (flags (state e)) k)
     \<and> inventory (state (snd (step ev lines e inp))) = inventory (state e)
     \<and> nodes (snd (step ev lines e inp)) = nodes e"
proof -
  have ok: "engine_ok e" using assms reachable_ok by simp
  from engine_ok_current [OF ok] obtain node where
    node: "map_of (nodes e) (current_id e) = Some node" by blast
  have sh: "shape (nodes e) = story_shape" using ok by (simp add: engine_ok_def)
  from hidden_path_present [OF sh] obtain h where
    h: "map_of (nodes e) ''hidden_path'' = Some h" "node_id h = ''hidden_path''"
    by (auto simp: shape_of_def)
  have nc: "\<not> startswith (strip inp) '':''" by (rule secret_not_command [OF assms(3)])
  let ?e' = "e\<lparr>state := (state e)\<lparr>flags := dict_set (flags (state e)) ''secret''
                                                (dict_get (flags (state e)) ''secret'' 0 + 1)\<rparr>,
                  current_id := ''hidden_path''\<rparr>"
  have eq: "step ev lines e inp = (Returned (Some h), ?e')"
    using node h nc assms(3) by (simp add: step_def Let_def get_current_node_def set_flag_def)
  have f: "flags (state ?e') = dict_set (flags (state e)) ''secret'' (dict_get (flags (state e)) ''secret'' 0 + 1)"
    by simp
  show ?thesis
    unfolding eq snd_conv f
    using nc h by (simp add: dict_get_def dict_set_def update_conv')
qed

theorem secret_keyword_witness:
  "\<exists>e0. StoryEngine demo_env demo_state = Inr e0
     \<and> lower (strip '' WhisPer '') = SECRET_INPUT
     \<and> current_id (snd (step demo_env [] e0 '' WhisPer '')) = ''hidden_path''
     \<and> flags (state (snd (step demo_env [] e0 '' WhisPer ''))) = [(''secret'', 1)]
     \<and> inventory (state (snd (step demo_env [] e0 '' WhisPer ''))) = []
     \<and> nodes (snd (step demo_env [] e0 '' WhisPer '')) = nodes e0"
proof -
  obtain e0 where e0: "StoryEngine demo_env demo_state = Inr e0"
    using StoryEngine_ok [of demo_env demo_state] by blast
  from StoryEngine_start [OF e0] have s: "state e0 = demo_state" by simp
  have w: "lower (strip '' WhisPer '') = SECRET_INPUT"
    by (simp add: lower_def strip_def is_space_def lower_char_def SECRET_INPUT_def)
  have r: "e0 = run demo_env e0 []" by (simp add: run_Nil)
  from secret_keyword [OF e0 r w, of "[]"] obtain h where
    "step demo_env [] e0 '' WhisPer '' =
       (Returned (Some h),
        e0\<lparr>state := (state e0)\<lparr>flags := dict_set (flags (state e0)) ''secret''
                                         (dict_get (flags (state e0)) ''secret'' 0 + 1)\<rparr>,
           current_id := ''hidden_path''\<rparr>)"
    by blast
  then show ?thesis using e0 w
    by (simp add: s demo_state_simps dict_get_def dict_set_def)
qed





text \<open>
  C4. The omen double study. Starting fresh, that is in a session whose StoryState begins
  with no flags and that has moved from \<open>opening\<close> to \<open>omen\<close> by choice A: flag
  \<open>studies\<close> is absent at \<open>omen\<close>, and \<open>step("A")\<close>, in either letter case,
  returns the node \<open>study_runes\<close>, moves there, sets \<open>studies\<close> to 1 and, going
  through the generic choice path, takes \<open>steps\<close> from 1 to 2. At \<open>omen\<close> in any
  engine state with \<open>studies\<close> = 1, \<open>step("A")\<close> returns the node \<open>hidden_path\<close>,
  sets \<open>studies\<close> to 2 and the current id to \<open>hidden_path\<close>, and changes nothing
  else: \<open>steps\<close> is not incremented.
\<close>

theorem omen_double_study:
  assumes "StoryEngine ev st = Inr e0" and "flags st = []"
    and "a1 = ''A'' \<or> a1 = ''a''" and "a2 = ''A'' \<or> a2 = ''a''"
    and "e1 = snd (step ev l1 e0 a1)"
    and "StoryEngine ev st' = Inr e0'" and "e = run ev e0' cs"
    and "current_id e = ''omen''" and "map_of (flags (state e)) ''studies'' = Some 1"
  shows "current_id e1 = ''omen'' \<and> map_of (flags (state e1)) ''studies'' = None
     \<and> (\<exists>n. map_of (nodes e1) ''study_runes'' = Some n
            \<and> fst (step ev l2 e1 a2) = Returned (Some n))
     \<and> current_id (snd (step ev l2 e1 a2)) = ''study_runes''
     \<and> flags (state (snd (step ev l2 e1 a2))) = [(''steps'', 2), (''studies'', 1)]
     \<and> inventory (state (snd (step ev l2 e1 a2))) = inventory st
     \<and> (\<exists>h. map_of (nodes e) ''hidden_path'' = Some h
            \<and> step ev l3 e a2 =
                (Returned (Some h),
                 e\<lparr>state := (state e)\<lparr>flags := dict_set (flags (state e)) ''studies'' 2\<rparr>,
                   current_id := ''hidden_path''\<rparr>))
     \<and> map_of (flags (state (snd (step ev l3 e a2)))) ''studies'' = Some 2
     \<and> map_of (flags (state (snd (step ev l3 e a2)))) ''steps'' = map_of (flags (state e)) ''steps''"
proof -
  from StoryEngine_start [OF assms(1)] have ok0: "engine_ok e0" and s0: "state e0 = st" by simp_all
  have e1: "e1 = bump_steps (e0\<lparr>current_id := ''omen''\<rparr>)"
    unfolding assms(5)
    by (rule opening_A [OF assms(1,3)]) (simp add: assms(2) dict_get_def)
  have ok1: "engine_ok e1" unfolding assms(5) by (rule step_ok [OF ok0])
  have c1: "current_id e1 = ''omen''" by (simp add: e1)
  have f1: "flags (state e1) = [(''steps'', 1)]"
    by (simp add: e1 s0 assms(2) dict_get_def dict_set_def)
  have i1: "inventory (state e1) = inventory st" by (simp add: e1 s0)
  have p: "upper (strip a2) = ''A''" "\<not> startswith (strip a2) '':''" "lower (strip a2) \<noteq> SECRET_INPUT"
    using letter_A_parse [OF assms(4)] by simp_all
  \<comment> \<open>the first study\<close>
  have "map_of story_shape (current_id e1) = Some (''omen'', omen_choices, False, [])"
    using c1 by (simp add: story_shape_def)
  from node_at [OF ok1 this] obtain node where
    node: "map_of (nodes e1) (current_id e1) = Some node"
    "shape_of node = (''omen'', omen_choices, False, [])" by blast
  then have nid: "node_id node = ''omen''" and ch: "choices node = omen_choices"
    by (simp_all add: shape_of_def)
  have tg: "map_of (choices node) ''A'' = Some (''Study the runes closely'', ''study_runes'')"
    using ch by (simp add: omen_choices_def)
  have lt: "dict_get (flags (state e1)) ''studies'' 0 + 1 < 2" by (simp add: f1 dict_get_def)
  have sh1: "shape (nodes e1) = story_shape" using ok1 by (simp add: engine_ok_def)
  have "map_of story_shape ''study_runes'' = Some (''study_runes'', study_runes_choices, False, [])"
    by (simp add: story_shape_def)
  from shaped_lookup [OF sh1 this] obtain n where
    n: "map_of (nodes e1) ''study_runes'' = Some n"
    "shape_of n = (''study_runes'', study_runes_choices, False, [])" by blast
  let ?e2 = "(set_flag e1 ''studies'' (dict_get (flags (state e1)) ''studies'' 0 + 1))
                \<lparr>current_id := ''study_runes''\<rparr>"
  have stay: "maybe_funnel_to_climax ?e2 = (Returned n, bump_steps ?e2)"
    by (rule funnel_stay [where node = n])
       (use n in \<open>simp_all add: f1 dict_get_def dict_set_def\<close>)
  have st1: "step ev l2 e1 a2 = (Returned (Some n), bump_steps ?e2)"
    unfolding step_first_study [OF node(1) p(2,3) nid p(1) lt tg] stay by simp
  \<comment> \<open>the second study\<close>
  have ok: "engine_ok e" unfolding assms(7) by (rule reachable_ok [OF assms(6)])
  have "map_of story_shape (current_id e) = Some (''omen'', omen_choices, False, [])"
    using assms(8) by (simp add: story_shape_def)
  from node_at [OF ok this] obtain node' where
    node': "map_of (nodes e) (current_id e) = Some node'"
    "shape_of node' = (''omen'', omen_choices, False, [])" by blast
  then have nid': "node_id node' = ''omen''" by (simp add: shape_of_def)
  have sh: "shape (nodes e) = story_shape" using ok by (simp add: engine_ok_def)
  from hidden_path_present [OF sh] obtain h where h: "map_of (nodes e) ''hidden_path'' = Some h"
    by blast
  have ge: "dict_get (flags (state e)) ''studies'' 0 + 1 \<ge> 2"
    and two: "dict_get (flags (state e)) ''studies'' 0 + 1 = 2"
    using assms(9) by (simp_all add: dict_get_def)
  have st2: "step ev l3 e a2 =
                (Returned (Some h),
                 e\<lparr>state := (state e)\<lparr>flags := dict_set (flags (state e)) ''studies'' 2\<rparr>,
                   current_id := ''hidden_path''\<rparr>)"
    unfolding step_second_study [OF node'(1) p(2,3) nid' p(1) ge h] two
    by (simp add: set_flag_def)
  show ?thesis
    unfolding st1 st2
    using c1 n(1) h i1
    by (simp add: f1 dict_get_def dict_set_def update_conv')
qed

theorem omen_double_study_witness:
  "\<exists>e0 e0'. StoryEngine demo_env demo_state = Inr e0
     \<and> flags demo_state = []
     \<and> StoryEngine demo_env (demo_state\<lparr>flags := [(''studies'', 1)]\<rparr>) = Inr e0'
     \<and> current_id (run demo_env e0' [Step ''A'' []]) = ''omen''
     \<and> map_of (flags (state (run demo_env e0' [Step ''A'' []]))) ''studies'' = Some 1
     \<and> current_id (snd (step demo_env [] e0 ''A'')) = ''omen''
     \<and> current_id (snd (step demo_env [] (snd (step demo_env [] e0 ''A'')) ''a'')) = ''study_runes''
     \<and> flags (state (snd (step demo_env [] (snd (step demo_env [] e0 ''A'')) ''a'')))
         = [(''steps'', 2), (''studies'', 1)]
     \<and> current_id (snd (step demo_env [] (run demo_env e0' [Step ''A'' []]) ''a'')) = ''hidden_path''
     \<and> map_of (flags (state (snd (step demo_env [] (run demo_env e0' [Step ''A'' []]) ''a''))))
         ''studies'' = Some 2"
proof -
  let ?st' = "demo_state\<lparr>flags := [(''studies'', 1)]\<rparr>"
  obtain e0 where e0: "StoryEngine demo_env demo_state = Inr e0"
    using StoryEngine_ok [of demo_env demo_state] by blast
  obtain e0' where e0': "StoryEngine demo_env ?st' = Inr e0'"
    using StoryEngine_ok [of demo_env ?st'] by blast
  from StoryEngine_start [OF e0'] have s0': "state e0' = ?st'" by simp
  let ?e = "run demo_env e0' [Step ''A'' []]"
  have e: "?e = bump_steps (e0'\<lparr>current_id := ''omen''\<rparr>)"
    unfolding run_one_step
    by (rule opening_A [OF e0']) (simp_all add: dict_get_def)
  have c: "current_id ?e = ''omen''" by (simp add: e)
  have f: "map_of (flags (state ?e)) ''studies'' = Some 1"
    by (simp add: e s0' dict_set_def update_conv')
  have a: "''A'' = ''A'' \<or> ''A'' = ''a''" "''a'' = ''A'' \<or> ''a'' = ''a''" by simp_all
  from omen_double_study [OF e0 demo_state_simps(1) a refl e0' refl c f, of "[]" "[]" "[]"]
  obtain h where
    1: "current_id (snd (step demo_env [] e0 ''A'')) = ''omen''"
    "current_id (snd (step demo_env [] (snd (step demo_env [] e0 ''A'')) ''a'')) = ''study_runes''"
    "flags (state (snd (step demo_env [] (snd (step demo_env [] e0 ''A'')) ''a'')))
         = [(''steps'', 2), (''studies'', 1)]"
    "step demo_env [] ?e ''a'' =
       (Returned (Some h),
        ?e\<lparr>state := (state ?e)\<lparr>flags := dict_set (flags (state ?e)) ''studies'' 2\<rparr>,
           current_id := ''hidden_path''\<rparr>)"
    "map_of (flags (state (snd (step demo_env [] ?e ''a'')))) ''studies'' = Some 2"
    by blast
  have 2: "current_id (snd (step demo_env [] ?e ''a'')) = ''hidden_path''"
    unfolding 1(4) by simp
  from e0 e0' c f 1(1,2,3,5) 2 demo_state_simps(1) show ?thesis by blast
qed

text \<open>
  C5. The side-effect table. \<open>apply_side_effects\<close> is the table of the specification:
  choice A at \<open>ally\<close> appends "cryptic map" and sets \<open>map\<close> to 1, choice A at
  \<open>onward\<close> appends "stone key" and sets \<open>key\<close> to 1, choice C at \<open>omen\<close> sets
  \<open>reckless\<close> to 1, choice B at \<open>onward\<close> sets \<open>wounded\<close> to 1, and every other
  pair changes nothing. For every engine state and every input that is a choice of the
  current node (not a command, not the secret keyword), the inventory after \<open>step\<close>
  and the four flags of the table after \<open>step\<close> are those of the table applied once
  to the state before; and, outside the study of the runes at \<open>omen\<close>, the result of
  \<open>step\<close> is the funnel check run on the state after the table was applied.
\<close>

theorem side_effect_table_holds:
  assumes "StoryEngine ev st = Inr e0" and "e = run ev e0 cs"
    and "get_current_node e = Inr node"
    and "\<not> startswith (strip inp) '':''" and "lower (strip inp) \<noteq> SECRET_INPUT"
    and "map_of (choices node) (upper (strip inp)) = Some (lbl, tgt)"
  shows "apply_side_effects nid ch s = side_effect_table nid ch s
     \<and> inventory (state (snd (step ev lines e inp)))
         = inventory (side_effect_table (node_id node) (upper (strip inp)) (state e))
     \<and> (\<forall>k \<in> set [''map'', ''key'', ''reckless'', ''wounded''].
           map_of (flags (state (snd (step ev lines e inp)))) k
             = map_of (flags (side_effect_table (node_id node) (upper (strip inp)) (state e))) k)
     \<and> (\<not> (node_id node = ''omen'' \<and> upper (strip inp) = ''A'') \<longrightarrow>
           step ev lines e inp =
             (case maybe_funnel_to_climax
                     (e\<lparr>state := side_effect_table (node_id node) (upper (strip inp)) (state e),
                        current_id := tgt\<rparr>) of
                (Raised ex, e3) \<Rightarrow> (Raised ex, e3)
              | (Returned n, e3) \<Rightarrow> (Returned (Some n), e3)))"
proof -
  have ok: "engine_ok e" unfolding assms(2) by (rule reachable_ok [OF assms(1)])
  have node: "map_of (nodes e) (current_id e) = Some node"
    using assms(3) by (simp add: get_current_node_def split: option.splits)
  let ?u = "upper (strip inp)"
  let ?t = "side_effect_table (node_id node) ?u (state e)"
  have gen: "step ev lines e inp =
             (case maybe_funnel_to_climax (e\<lparr>state := ?t, current_id := tgt\<rparr>) of
                (Raised ex, e3) \<Rightarrow> (Raised ex, e3)
              | (Returned n, e3) \<Rightarrow> (Returned (Some n), e3))"
    if "\<not> (node_id node = ''omen'' \<and> ?u = ''A'')"
    using step_generic [OF node assms(4,5) that assms(6)]
    by (simp add: apply_side_effects_table)
  have st: "inventory (state (snd (step ev lines e inp))) = inventory ?t
     \<and> (\<forall>k \<in> set [''map'', ''key'', ''reckless'', ''wounded''].
           map_of (flags (state (snd (step ev lines e inp)))) k = map_of (flags ?t) k)"
  proof (cases "node_id node = ''omen'' \<and> ?u = ''A''")
    case False
    show ?thesis
      unfolding gen [OF False] snd_lift_outcome funnel_state
      by (simp add: dict_set_def update_conv')
  next
    case True
    then have t: "?t = state e" by (simp add: table_omen_A)
    have tgA: "map_of (choices node) ''A'' = Some (lbl, tgt)" using assms(6) True by simp
    show ?thesis
    proof (cases "dict_get (flags (state e)) ''studies'' 0 + 1 \<ge> 2")
      case ge: True
      have sh: "shape (nodes e) = story_shape" using ok by (simp add: engine_ok_def)
      from hidden_path_present [OF sh] obtain h where h: "map_of (nodes e) ''hidden_path'' = Some h"
        by blast
      show ?thesis
        unfolding t step_second_study [OF node assms(4,5) conjunct1 [OF True] conjunct2 [OF True] ge h]
        by (simp add: dict_set_def update_conv')
    next
      case lt: False
      then have lt': "dict_get (flags (state e)) ''studies'' 0 + 1 < 2" by simp
      show ?thesis
        unfolding t step_first_study [OF node assms(4,5) conjunct1 [OF True] conjunct2 [OF True] lt' tgA]
          snd_lift_outcome funnel_state
        by (simp add: dict_set_def update_conv')
    qed
  qed
  from apply_side_effects_table [of nid ch s] st gen show ?thesis by blast
qed

theorem side_effect_table_holds_witness:
  "\<exists>e0 node. StoryEngine demo_env demo_state = Inr e0
     \<and> get_current_node (run demo_env e0 [Step ''B'' []]) = Inr node
     \<and> node_id node = ''ally''
     \<and> \<not> startswith (strip ''a'') '':''
     \<and> lower (strip ''a'') \<noteq> SECRET_INPUT
     \<and> map_of (choices node) (upper (strip ''a''))
         = Some (''Barter a keepsake for their map'', ''get_map'')
     \<and> inventory (state (snd (step demo_env [] (run demo_env e0 [Step ''B'' []]) ''a'')))
         = [''cryptic map'']
     \<and> map_of (flags (state (snd (step demo_env [] (run demo_env e0 [Step ''B'' []]) ''a''))))
         ''map'' = Some 1
     \<and> map_of (flags (state (snd (step demo_env [] (run demo_env e0 [Step ''B'' []]) ''a''))))
         ''key'' = None"
proof -
  obtain e0 where e0: "StoryEngine demo_env demo_state = Inr e0"
    using StoryEngine_ok [of demo_env demo_state] by blast
  from StoryEngine_start [OF e0] have s0: "state e0 = demo_state" by simp
  let ?e = "run demo_env e0 [Step ''B'' []]"
  have pB: "\<not> startswith (strip ''B'') '':''" "lower (strip ''B'') \<noteq> SECRET_INPUT"
    "map_of opening_choices (upper (strip ''B''))
       = Some (''Seek an ally in the nearest settlement'', ''ally'')"
    by (simp_all add: opening_choices_def strip_def is_space_def startswith_def
        lower_def lower_char_def upper_def upper_char_def SECRET_INPUT_def)
  have e: "?e = bump_steps (e0\<lparr>current_id := ''ally''\<rparr>)"
    unfolding run_one_step
    by (rule opening_choice [OF e0 pB]) (simp add: demo_state_simps dict_get_def)
  have ok: "engine_ok ?e" by (rule reachable_ok [OF e0])
  have c: "current_id ?e = ''ally''" by (simp add: e)
  have st: "inventory (state ?e) = []" "flags (state ?e) = [(''steps'', 1)]"
    by (simp_all add: e s0 demo_state_simps dict_get_def dict_set_def)
  have "map_of story_shape (current_id ?e) = Some (''ally'', ally_choices, False, [])"
    using c by (simp add: story_shape_def)
  from node_at [OF ok this] obtain node where
    node: "map_of (nodes ?e) (current_id ?e) = Some node"
    "shape_of node = (''ally'', ally_choices, False, [])" by blast
  then have g: "get_current_node ?e = Inr node" and nid: "node_id node = ''ally''"
    and ch: "choices node = ally_choices"
    by (simp_all add: get_current_node_def shape_of_def)
  have p: "\<not> startswith (strip ''a'') '':''" "lower (strip ''a'') \<noteq> SECRET_INPUT"
    "upper (strip ''a'') = ''A''"
    by (simp_all add: strip_def is_space_def startswith_def
        lower_def lower_char_def upper_def upper_char_def SECRET_INPUT_def)
  have tg: "map_of (choices node) (upper (strip ''a''))
         = Some (''Barter a keepsake for their map'', ''get_map'')"
    by (simp add: ch p(3) ally_choices_def)
  note t = side_effect_table_holds [where lines = "[]", OF e0 refl g p(1,2) tg]
  from t have inv: "inventory (state (snd (step demo_env [] ?e ''a'')))
      = inventory (side_effect_table (node_id node) (upper (strip ''a'')) (state ?e))"
    by blast
  from t have fl: "\<forall>k \<in> set [''map'', ''key'', ''reckless'', ''wounded''].
      map_of (flags (state (snd (step demo_env [] ?e ''a'')))) k
        = map_of (flags (side_effect_table (node_id node) (upper (strip ''a'')) (state ?e))) k"
    by blast
  from inv fl
  have "inventory (state (snd (step demo_env [] ?e ''a''))) = [''cryptic map'']
     \<and> map_of (flags (state (snd (step demo_env [] ?e ''a'')))) ''map'' = Some 1
     \<and> map_of (flags (state (snd (step demo_env [] ?e ''a'')))) ''key'' = None"
    by (simp add: nid p(3) side_effect_table_def st dict_set_def)
  with e0 g nid p(1,2) tg show ?thesis by blast
qed

text \<open>
  C2, as stated, at a concrete input: in the node mapping that \<open>build_nodes\<close> returns,
  choice B of \<open>omen\<close> has the target \<open>retreat\<close>, which is no key of the mapping.
\<close>

theorem dangling_target_counterexample:
  "(case fst (build_nodes demo_env demo_state (Random 7)) of
      Returned ns \<Rightarrow> \<not> targets_present ns
                      \<and> map_of (target_table ns) ''omen''
                          = Some [(''A'', ''study_runes'', True), (''B'', ''retreat'', False),
                                  (''C'', ''touch_rune'', False)]
    | Raised ex \<Rightarrow> False)"
proof -
  obtain n1 n2 n3 n4 n5 r' where
    b: "build_nodes demo_env demo_state (Random 7) =
       (Returned
          [(''opening'', n1), (''omen'', n2), (''study_runes'', generate_study_runes demo_state),
           (''ally'', n3), (''onward'', n4), (''hidden_path'', generate_hidden_path),
           (''climax'', n5), (''ending_hopeful'', generate_ending demo_state ''hopeful''),
           (''ending_tragic'', generate_ending demo_state ''tragic''),
           (''ending_twist'', generate_ending demo_state ''twist'')], r')"
    and s: "shape_of n2 = (''omen'', omen_choices, False, [])"
    using build_nodes_explicit [of demo_env demo_state "Random 7"] by blast
  from s have c: "choices n2 = omen_choices" by (simp add: shape_of_def)
  show ?thesis
    unfolding b
    by (simp add: targets_present_def target_table_def keys_def c omen_choices_def)
qed

text \<open>
  C2, amended. In the node mapping that \<open>build_nodes\<close> returns, the targets of
  \<open>opening\<close>, \<open>study_runes\<close> and \<open>climax\<close>, of choice A of \<open>omen\<close> and of
  choice C of \<open>ally\<close> are keys of the mapping; the ten other targets (retreat,
  touch_rune, get_map, help_local, search_area, force_arch, make_camp, hidden_depths,
  return_later, call_dark) are not; the ending nodes, and only they, have no choices.
\<close>

theorem choice_targets_of_build_nodes:
  "\<exists>ns r'. build_nodes ev st r = (Returned ns, r')
     \<and> target_table ns =
         [(''opening'', [(''A'', ''omen'', True), (''B'', ''ally'', True), (''C'', ''onward'', True)]),
          (''omen'', [(''A'', ''study_runes'', True), (''B'', ''retreat'', False),
                      (''C'', ''touch_rune'', False)]),
          (''study_runes'', [(''A'', ''hidden_path'', True), (''B'', ''onward'', True),
                             (''C'', ''climax'', True)]),
          (''ally'', [(''A'', ''get_map'', False), (''B'', ''help_local'', False),
                      (''C'', ''onward'', True)]),
          (''onward'', [(''A'', ''search_area'', False), (''B'', ''force_arch'', False),
                        (''C'', ''make_camp'', False)]),
          (''hidden_path'', [(''A'', ''hidden_depths'', False), (''B'', ''return_later'', False),
                             (''C'', ''call_dark'', False)]),
          (''climax'', [(''A'', ''ending_hopeful'', True), (''B'', ''ending_twist'', True),
                        (''C'', ''ending_tragic'', True)]),
          (''ending_hopeful'', []), (''ending_tragic'', []), (''ending_twist'', [])]
     \<and> list_all (\<lambda>(k, n). is_ending n = (choices n = [])) ns
     \<and> list_all (\<lambda>(k, n). list_all (\<lambda>(c, lbl, tgt).
           tgt \<in> set (keys ns) \<or> tgt \<in> set dangling_targets) (choices n)) ns
     \<and> set dangling_targets \<inter> set (keys ns) = {}"
proof -
  obtain n1 n2 n3 n4 n5 r' where
    b: "build_nodes ev st r =
       (Returned
          [(''opening'', n1), (''omen'', n2), (''study_runes'', generate_study_runes st),
           (''ally'', n3), (''onward'', n4), (''hidden_path'', generate_hidden_path),
           (''climax'', n5), (''ending_hopeful'', generate_ending st ''hopeful''),
           (''ending_tragic'', generate_ending st ''tragic''),
           (''ending_twist'', generate_ending st ''twist'')], r')"
    and s: "shape_of n1 = (''opening'', opening_choices, False, [])"
      "shape_of n2 = (''omen'', omen_choices, False, [])"
      "shape_of n3 = (''ally'', ally_choices, False, [])"
      "shape_of n4 = (''onward'', onward_choices, False, [])"
      "shape_of n5 = (''climax'', climax_choices, False, [])"
    using build_nodes_explicit [of ev st r] by blast
  from s have c: "choices n1 = opening_choices" "choices n2 = omen_choices"
    "choices n3 = ally_choices" "choices n4 = onward_choices" "choices n5 = climax_choices"
    "is_ending n1 = False" "is_ending n2 = False" "is_ending n3 = False"
    "is_ending n4 = False" "is_ending n5 = False"
    by (simp_all add: shape_of_def)
  show ?thesis
    unfolding b
    by (simp add: target_table_def keys_def c fixed_choices choice_tables dangling_targets_def)
qed

theorem choice_targets_of_build_nodes_witness:
  "\<exists>ns r'. build_nodes demo_env demo_state (Random 7) = (Returned ns, r')
     \<and> map_of (target_table ns) ''ally''
         = Some [(''A'', ''get_map'', False), (''B'', ''help_local'', False),
                 (''C'', ''onward'', True)]
     \<and> map_of (target_table ns) ''climax''
         = Some [(''A'', ''ending_hopeful'', True), (''B'', ''ending_twist'', True),
                 (''C'', ''ending_tragic'', True)]"
proof -
  from choice_targets_of_build_nodes [of demo_env demo_state "Random 7"]
  obtain ns r' where "build_nodes demo_env demo_state (Random 7) = (Returned ns, r')"
    "target_table ns =
         [(''opening'', [(''A'', ''omen'', True), (''B'', ''ally'', True), (''C'', ''onward'', True)]),
          (''omen'', [(''A'', ''study_runes'', True), (''B'', ''retreat'', False),
                      (''C'', ''touch_rune'', False)]),
          (''study_runes'', [(''A'', ''hidden_path'', True), (''B'', ''onward'', True),
                             (''C'', ''climax'', True)]),
          (''ally'', [(''A'', ''get_map'', False), (''B'', ''help_local'', False),
                      (''C'', ''onward'', True)]),
          (''onward'', [(''A'', ''search_area'', False), (''B'', ''force_arch'', False),
                        (''C'', ''make_camp'', False)]),
          (''hidden_path'', [(''A'', ''hidden_depths'', False), (''B'', ''return_later'', False),
                             (''C'', ''call_dark'', False)]),
          (''climax'', [(''A'', ''ending_hopeful'', True), (''B'', ''ending_twist'', True),
                        (''C'', ''ending_tragic'', True)]),
          (''ending_hopeful'', []), (''ending_tragic'', []), (''ending_twist'', [])]"
    by blast
  then show ?thesis by simp
qed


end
